theory Spec2Isabelle
  imports Main "HOL-Library.Word" "HOL-Library.AList"
begin

section \<open>Byte buffers (packet.ts, class WispBuffer)\<close>

text \<open>
  A \<open>Uint8Array\<close> is a list of bytes. A \<open>WispBuffer\<close> holds the array, its length
  (\<open>size\<close>) and a \<open>DataView\<close> over the same bytes, so the byte list is the whole value.
  JavaScript numbers that the code only uses as integers are \<open>int\<close>; JavaScript strings
  are sequences of UTF-16 code units.
\<close>

type_synonym byte = "8 word"
type_synonym WispBuffer = "byte list"
type_synonym js_string = "16 word list"

text \<open>Thrown values. \<open>Thrown n\<close> stands for a value raised by a collaborator (resolver, socket).\<close>

datatype error =
    TypeError string
  | RangeError string
  | Error string
  | HandshakeError
  | Thrown nat

definition bind_err :: "error + 'a \<Rightarrow> ('a \<Rightarrow> error + 'b) \<Rightarrow> error + 'b" where
  "bind_err r f = (case r of Inl e \<Rightarrow> Inl e | Inr v \<Rightarrow> f v)"

text \<open>\<open>new WispBuffer(n)\<close> with a number: \<open>n\<close> zero bytes.\<close>

definition WispBuffer_alloc :: "nat \<Rightarrow> WispBuffer" where
  "WispBuffer_alloc n = replicate n 0"

definition concat_buf :: "WispBuffer \<Rightarrow> WispBuffer \<Rightarrow> WispBuffer" where
  "concat_buf this buffer = this @ buffer"

text \<open>
  \<open>Uint8Array.prototype.slice(start, end)\<close>: a negative index counts from the end, every
  index is clamped to the array, a missing \<open>end\<close> is the length, and an empty or inverted
  range gives the empty array. Nothing is raised.
\<close>

definition clamp_index :: "int \<Rightarrow> nat \<Rightarrow> nat" where
  "clamp_index k len = (if k < 0 then nat (max (int len + k) 0) else min (nat k) len)"

definition slice :: "WispBuffer \<Rightarrow> int \<Rightarrow> int option \<Rightarrow> WispBuffer" where
  "slice this index stop =
     (let len = length this;
          from = clamp_index index len;
          to = (case stop of None \<Rightarrow> len | Some e \<Rightarrow> clamp_index e len)
      in take (to - from) (drop from this))"

subsection \<open>DataView accessors, little-endian\<close>

definition out_of_bounds :: error where
  "out_of_bounds = RangeError ''Offset is outside the bounds of the DataView''"

definition getUint8 :: "WispBuffer \<Rightarrow> nat \<Rightarrow> error + int" where
  "getUint8 b i = (if i + 1 \<le> length b then Inr (uint (b ! i)) else Inl out_of_bounds)"

definition getUint16 :: "WispBuffer \<Rightarrow> nat \<Rightarrow> error + int" where
  "getUint16 b i =
     (if i + 2 \<le> length b then Inr (uint (b ! i) + 256 * uint (b ! (i + 1)))
      else Inl out_of_bounds)"

definition getUint32 :: "WispBuffer \<Rightarrow> nat \<Rightarrow> error + int" where
  "getUint32 b i =
     (if i + 4 \<le> length b
      then Inr (uint (b ! i) + 256 * uint (b ! (i + 1)) + 65536 * uint (b ! (i + 2))
                + 16777216 * uint (b ! (i + 3)))
      else Inl out_of_bounds)"

text \<open>
  The setters convert the number modulo \<open>2^8\<close>, \<open>2^16\<close>, \<open>2^32\<close> and store its bytes. Every
  call in the code writes inside a buffer it has just allocated with a constant size.
\<close>

definition setUint8 :: "WispBuffer \<Rightarrow> nat \<Rightarrow> int \<Rightarrow> WispBuffer" where
  "setUint8 b i v = b[i := word_of_int (v mod 256)]"

definition setUint16 :: "WispBuffer \<Rightarrow> nat \<Rightarrow> int \<Rightarrow> WispBuffer" where
  "setUint16 b i v =
     (let w = v mod 65536
      in b[i := word_of_int (w mod 256), i + 1 := word_of_int (w div 256)])"

definition setUint32 :: "WispBuffer \<Rightarrow> nat \<Rightarrow> int \<Rightarrow> WispBuffer" where
  "setUint32 b i v =
     (let w = v mod 4294967296
      in b[i := word_of_int (w mod 256),
           i + 1 := word_of_int ((w div 256) mod 256),
           i + 2 := word_of_int ((w div 65536) mod 256),
           i + 3 := word_of_int (w div 16777216)])"

subsection \<open>TextEncoder and TextDecoder (UTF-8)\<close>

text \<open>
  \<open>encode_text\<close> is \<open>TextEncoder.encode\<close>: the string's code points in UTF-8, a lone
  surrogate replaced by U+FFFD. \<open>decode_text\<close> is \<open>TextDecoder.decode\<close> with the default
  options (not fatal, BOM not ignored): malformed input gives U+FFFD, a leading byte order
  mark is dropped.
\<close>

definition is_high_surrogate :: "16 word \<Rightarrow> bool" where
  "is_high_surrogate u = (0xD800 \<le> unat u \<and> unat u \<le> 0xDBFF)"

definition is_low_surrogate :: "16 word \<Rightarrow> bool" where
  "is_low_surrogate u = (0xDC00 \<le> unat u \<and> unat u \<le> 0xDFFF)"

definition utf8_bytes :: "nat \<Rightarrow> byte list" where
  "utf8_bytes cp =
     (if cp < 0x80 then [of_nat cp]
      else if cp < 0x800 then [of_nat (0xC0 + cp div 64), of_nat (0x80 + cp mod 64)]
      else if cp < 0x10000 then
        [of_nat (0xE0 + cp div 4096), of_nat (0x80 + (cp div 64) mod 64),
         of_nat (0x80 + cp mod 64)]
      else
        [of_nat (0xF0 + cp div 262144), of_nat (0x80 + (cp div 4096) mod 64),
         of_nat (0x80 + (cp div 64) mod 64), of_nat (0x80 + cp mod 64)])"

fun encode_text :: "js_string \<Rightarrow> WispBuffer" where
  "encode_text [] = []"
| "encode_text [u] =
     (if is_high_surrogate u \<or> is_low_surrogate u then utf8_bytes 0xFFFD
      else utf8_bytes (unat u))"
| "encode_text (u # l # us) =
     (if is_high_surrogate u \<and> is_low_surrogate l
      then utf8_bytes (0x10000 + (unat u - 0xD800) * 0x400 + (unat l - 0xDC00)) @ encode_text us
      else if is_high_surrogate u \<or> is_low_surrogate u
      then utf8_bytes 0xFFFD @ encode_text (l # us)
      else utf8_bytes (unat u) @ encode_text (l # us))"

text \<open>A lead byte gives the number of continuation bytes, the first bits and the bounds
  of the next byte.\<close>

definition utf8_lead :: "nat \<Rightarrow> (nat \<times> nat \<times> nat \<times> nat) option" where
  "utf8_lead b =
     (if 0xC2 \<le> b \<and> b \<le> 0xDF then Some (1, b mod 32, 0x80, 0xBF)
      else if 0xE0 \<le> b \<and> b \<le> 0xEF
      then Some (2, b mod 16, if b = 0xE0 then 0xA0 else 0x80, if b = 0xED then 0x9F else 0xBF)
      else if 0xF0 \<le> b \<and> b \<le> 0xF4
      then Some (3, b mod 8, if b = 0xF0 then 0x90 else 0x80, if b = 0xF4 then 0x8F else 0xBF)
      else None)"

fun utf8_decode :: "nat \<Rightarrow> nat \<Rightarrow> nat \<Rightarrow> nat \<Rightarrow> byte list \<Rightarrow> nat list" where
  "utf8_decode cp needed lower upper [] = (if needed = 0 then [] else [0xFFFD])"
| "utf8_decode cp needed lower upper (w # ws) =
     (let b = unat w in
      if needed \<noteq> 0 \<and> lower \<le> b \<and> b \<le> upper then
        (let cp' = cp * 64 + b mod 64
         in if needed = 1 then cp' # utf8_decode 0 0 0x80 0xBF ws
            else utf8_decode cp' (needed - 1) 0x80 0xBF ws)
      else
        (if needed \<noteq> 0 then [0xFFFD] else []) @
        (if b < 0x80 then b # utf8_decode 0 0 0x80 0xBF ws
         else case utf8_lead b of
                Some (n, c, lo, hi) \<Rightarrow> utf8_decode c n lo hi ws
              | None \<Rightarrow> 0xFFFD # utf8_decode 0 0 0x80 0xBF ws))"

definition strip_bom :: "nat list \<Rightarrow> nat list" where
  "strip_bom cps = (case cps of [] \<Rightarrow> [] | c # cs \<Rightarrow> if c = 0xFEFF then cs else c # cs)"

definition utf16_units :: "nat \<Rightarrow> js_string" where
  "utf16_units cp =
     (if cp < 0x10000 then [of_nat cp]
      else [of_nat (0xD800 + (cp - 0x10000) div 0x400), of_nat (0xDC00 + (cp - 0x10000) mod 0x400)])"

definition decode_text :: "WispBuffer \<Rightarrow> js_string" where
  "decode_text bytes = concat (map utf16_units (strip_bom (utf8_decode 0 0 0x80 0xBF bytes)))"

definition get_string :: "WispBuffer \<Rightarrow> js_string" where
  "get_string this = decode_text this"

section \<open>Packets (packet.ts)\<close>

datatype payload =
    ConnectPayload (stream_type: int) (port: int) (hostname: js_string)
  | DataPayload (data: WispBuffer)
  | ContinuePayload (buffer_remaining: int)
  | ClosePayload (reason: int)
  | InfoPayload (major_ver: int) (minor_ver: int) (extensions: WispBuffer)

text \<open>The static \<open>type\<close> and \<open>min_size\<close> of each payload class.\<close>

fun payload_type :: "payload \<Rightarrow> int" where
  "payload_type (ConnectPayload _ _ _) = 1"
| "payload_type (DataPayload _) = 2"
| "payload_type (ContinuePayload _) = 3"
| "payload_type (ClosePayload _) = 4"
| "payload_type (InfoPayload _ _ _) = 5"

fun payload_serialize :: "payload \<Rightarrow> WispBuffer" where
  "payload_serialize (ConnectPayload st p h) =
     concat_buf (setUint16 (setUint8 (WispBuffer_alloc 3) 0 st) 1 p) (encode_text h)"
| "payload_serialize (DataPayload d) = d"
| "payload_serialize (ContinuePayload n) = setUint32 (WispBuffer_alloc 4) 0 n"
| "payload_serialize (ClosePayload r) = setUint8 (WispBuffer_alloc 1) 0 r"
| "payload_serialize (InfoPayload ma mi exts) =
     concat_buf (setUint8 (setUint8 (WispBuffer_alloc 2) 0 ma) 1 mi) exts"

definition ConnectPayload_parse :: "WispBuffer \<Rightarrow> error + payload" where
  "ConnectPayload_parse buffer =
     bind_err (getUint8 buffer 0) (\<lambda>st.
     bind_err (getUint16 buffer 1) (\<lambda>p.
     Inr (ConnectPayload st p (decode_text (slice buffer 3 None)))))"

definition DataPayload_parse :: "WispBuffer \<Rightarrow> error + payload" where
  "DataPayload_parse buffer = Inr (DataPayload buffer)"

definition ContinuePayload_parse :: "WispBuffer \<Rightarrow> error + payload" where
  "ContinuePayload_parse buffer =
     bind_err (getUint32 buffer 0) (\<lambda>n. Inr (ContinuePayload n))"

definition ClosePayload_parse :: "WispBuffer \<Rightarrow> error + payload" where
  "ClosePayload_parse buffer = bind_err (getUint8 buffer 0) (\<lambda>r. Inr (ClosePayload r))"

definition InfoPayload_parse :: "WispBuffer \<Rightarrow> error + payload" where
  "InfoPayload_parse buffer =
     bind_err (getUint8 buffer 0) (\<lambda>ma.
     bind_err (getUint8 buffer 1) (\<lambda>mi.
     Inr (InfoPayload ma mi (slice buffer 2 None))))"

text \<open>\<open>packet_classes\<close>: the parser and \<open>min_size\<close> registered for a type byte.\<close>

definition packet_classes :: "int \<Rightarrow> ((WispBuffer \<Rightarrow> error + payload) \<times> nat) option" where
  "packet_classes t =
     (if t = 1 then Some (ConnectPayload_parse, 3)
      else if t = 2 then Some (DataPayload_parse, 0)
      else if t = 3 then Some (ContinuePayload_parse, 4)
      else if t = 4 then Some (ClosePayload_parse, 1)
      else if t = 5 then Some (InfoPayload_parse, 2)
      else None)"

record WispPacket =
  ptype :: int
  stream_id :: int
  payload_bytes :: "WispBuffer option"
  payload :: "payload option"

text \<open>The constructor: a payload without payload bytes is serialized.\<close>

definition WispPacket_new ::
  "int \<Rightarrow> int \<Rightarrow> payload option \<Rightarrow> WispBuffer option \<Rightarrow> WispPacket" where
  "WispPacket_new t sid pl pb =
     \<lparr>ptype = t, stream_id = sid,
      payload_bytes = (case (pl, pb) of (Some p, None) \<Rightarrow> Some (payload_serialize p) | _ \<Rightarrow> pb),
      payload = pl\<rparr>"

definition min_size :: nat where
  "min_size = 5"

definition parse :: "WispBuffer \<Rightarrow> error + WispPacket" where
  "parse buffer =
     bind_err (getUint8 buffer 0) (\<lambda>t.
     bind_err (getUint32 buffer 1) (\<lambda>sid.
     Inr (WispPacket_new t sid None (Some (slice buffer 5 None)))))"

definition parse_all :: "WispBuffer \<Rightarrow> error + WispPacket" where
  "parse_all buffer =
     (if length buffer < min_size then Inl (TypeError ''packet too small'')
      else bind_err (parse buffer) (\<lambda>packet.
        case packet_classes (ptype packet) of
          None \<Rightarrow> Inl (TypeError ''invalid packet type'')
        | Some (payload_parse, payload_min) \<Rightarrow>
            (case payload_bytes packet of
               None \<Rightarrow> Inl (TypeError ''payload bytes undefined'')
             | Some pb \<Rightarrow>
                 if length pb < payload_min then Inl (TypeError ''payload too small'')
                 else bind_err (payload_parse pb) (\<lambda>pl. Inr (packet\<lparr>payload := Some pl\<rparr>)))))"

text \<open>\<open>serialize\<close> reads \<open>this.payload.serialize()\<close>: a packet without a payload raises.\<close>

definition serialize :: "WispPacket \<Rightarrow> error + WispBuffer" where
  "serialize this =
     (case payload this of
        None \<Rightarrow> Inl (TypeError ''payload undefined'')
      | Some pl \<Rightarrow>
          Inr (concat_buf (setUint32 (setUint8 (WispBuffer_alloc 5) 0 (ptype this)) 1 (stream_id this))
                 (payload_serialize pl)))"

text \<open>Every packet the engine builds is \<open>new WispPacket({type: P.type, stream_id, payload})\<close>
  with the payload class's own type.\<close>

definition packet_of :: "int \<Rightarrow> payload \<Rightarrow> WispPacket" where
  "packet_of sid pl = WispPacket_new (payload_type pl) sid (Some pl) None"

section \<open>Extensions (extensions.ts)\<close>

datatype role = Client | Server

datatype ext_class = BaseExtension | UDPExtension | MOTDExtension

fun ext_class_id :: "ext_class \<Rightarrow> int" where
  "ext_class_id BaseExtension = 0"
| "ext_class_id UDPExtension = 1"
| "ext_class_id MOTDExtension = 4"

text \<open>The payload classes: \<open>EmptyPayload\<close>, and the server payload of the MOTD extension.\<close>

datatype ext_payload = EmptyPayload | MOTDServerPayload (message: "js_string option")

datatype ext_payload_class = EmptyPayloadClass | MOTDServerClass

fun ext_Server :: "ext_class \<Rightarrow> ext_payload_class" where
  "ext_Server MOTDExtension = MOTDServerClass"
| "ext_Server _ = EmptyPayloadClass"

fun ext_Client :: "ext_class \<Rightarrow> ext_payload_class" where
  "ext_Client _ = EmptyPayloadClass"

fun ext_payload_parse :: "ext_payload_class \<Rightarrow> WispBuffer \<Rightarrow> ext_payload" where
  "ext_payload_parse EmptyPayloadClass buffer = EmptyPayload"
| "ext_payload_parse MOTDServerClass buffer = MOTDServerPayload (Some (get_string buffer))"

text \<open>\<open>new WispBuffer(x)\<close> raises when \<open>x\<close> is undefined.\<close>

fun ext_payload_serialize :: "ext_payload \<Rightarrow> error + WispBuffer" where
  "ext_payload_serialize EmptyPayload = Inr (WispBuffer_alloc 0)"
| "ext_payload_serialize (MOTDServerPayload (Some m)) = Inr (encode_text m)"
| "ext_payload_serialize (MOTDServerPayload None) =
     Inl (Error ''invalid data type passed to wisp buffer constructor'')"

text \<open>An extension object: its class (which fixes \<open>id\<close> and \<open>name\<close>) and its payload,
  undefined when the constructor got neither configuration.\<close>

record Extension =
  ext_cls :: ext_class
  ext_id :: int
  ext_payload :: "ext_payload option"

text \<open>A configuration object is \<open>{}\<close> or \<open>{message}\<close>. The constructor of the MOTD server
  payload reads \<open>message\<close>, undefined in \<open>{}\<close>; the empty payload reads nothing.\<close>

datatype ext_config = EmptyConfig | MessageConfig js_string

fun ext_payload_new :: "ext_payload_class \<Rightarrow> ext_config \<Rightarrow> ext_payload" where
  "ext_payload_new MOTDServerClass (MessageConfig m) = MOTDServerPayload (Some m)"
| "ext_payload_new MOTDServerClass EmptyConfig = MOTDServerPayload None"
| "ext_payload_new EmptyPayloadClass _ = EmptyPayload"

definition BaseExtension_new ::
  "ext_class \<Rightarrow> ext_config option \<Rightarrow> ext_config option \<Rightarrow> Extension" where
  "BaseExtension_new cls server_config client_config =
     \<lparr>ext_cls = cls, ext_id = ext_class_id cls,
      ext_payload =
        (case server_config of
           Some sc \<Rightarrow> Some (ext_payload_new (ext_Server cls) sc)
         | None \<Rightarrow>
             (case client_config of
                Some cc \<Rightarrow> Some (ext_payload_new (ext_Client cls) cc)
              | None \<Rightarrow> None))\<rparr>"

definition BaseExtension_parse :: "ext_class \<Rightarrow> WispBuffer \<Rightarrow> role \<Rightarrow> Extension" where
  "BaseExtension_parse cls buffer r =
     (let extension = BaseExtension_new cls None None
      in case r of
           Client \<Rightarrow> extension\<lparr>ext_payload := Some (ext_payload_parse (ext_Client cls) (slice buffer 5 None))\<rparr>
         | Server \<Rightarrow> extension\<lparr>ext_payload := Some (ext_payload_parse (ext_Server cls) (slice buffer 5 None))\<rparr>)"

text \<open>\<open>setInt8\<close> stores the same byte as \<open>setUint8\<close>.\<close>

definition Extension_serialize :: "Extension \<Rightarrow> error + WispBuffer" where
  "Extension_serialize this =
     (case ext_payload this of
        None \<Rightarrow> Inl (TypeError ''payload undefined'')
      | Some pl \<Rightarrow>
          (case ext_payload_serialize pl of
             Inl e \<Rightarrow> Inl e
           | Inr payload_buffer \<Rightarrow>
               Inr (concat_buf
                      (setUint32 (setUint8 (WispBuffer_alloc 5) 0 (ext_class_id (ext_cls this))) 1
                         (int (length payload_buffer)))
                      payload_buffer)))"

text \<open>
  \<open>parse_extensions\<close>: the loop reads the record at offset 0 of what is left of the buffer
  (\<open>index\<close> stays 0), and cuts the record off with \<open>slice\<close>. The first class of
  \<open>valid_extensions\<close> with the record's id parses it; a record with no such class is
  skipped.
\<close>

function parse_extensions_loop ::
  "WispBuffer \<Rightarrow> ext_class list \<Rightarrow> role \<Rightarrow> Extension list \<Rightarrow> error + Extension list" where
  "parse_extensions_loop payload_buffer valid_extensions r parsed_extensions =
     (if length payload_buffer = 0 then Inr parsed_extensions
      else case getUint8 payload_buffer 0 of
             Inl e \<Rightarrow> Inl e
           | Inr eid \<Rightarrow>
               (case getUint32 payload_buffer 1 of
                  Inl e \<Rightarrow> Inl e
                | Inr ext_len \<Rightarrow>
                    parse_extensions_loop (slice payload_buffer (5 + ext_len) None) valid_extensions r
                      (case find (\<lambda>extension. ext_class_id extension = eid) valid_extensions of
                         None \<Rightarrow> parsed_extensions
                       | Some cls \<Rightarrow>
                           parsed_extensions @
                           [BaseExtension_parse cls (slice payload_buffer 0 (Some (5 + ext_len))) r])))"
  by pat_completeness auto
termination
proof (relation "measure (\<lambda>(b, _, _, _). length b)")
  show "wf (measure (\<lambda>(b, _, _, _). length b))" by simp
next
  fix payload_buffer :: WispBuffer and valid_extensions :: "ext_class list" and r :: role
    and parsed_extensions :: "Extension list" and eid ext_len :: int
  assume ne: "length payload_buffer \<noteq> 0" and len: "getUint32 payload_buffer 1 = Inr ext_len"
  have "0 \<le> ext_len" using len by (auto simp: getUint32_def split: if_splits)
  then have "length (slice payload_buffer (5 + ext_len) None) < length payload_buffer"
    using ne by (simp add: slice_def clamp_index_def)
  then show "((slice payload_buffer (5 + ext_len) None, valid_extensions, r,
               case find (\<lambda>extension. ext_class_id extension = eid) valid_extensions of
                 None \<Rightarrow> parsed_extensions
               | Some cls \<Rightarrow>
                   parsed_extensions @
                   [BaseExtension_parse cls (slice payload_buffer 0 (Some (5 + ext_len))) r]),
              payload_buffer, valid_extensions, r, parsed_extensions)
             \<in> measure (\<lambda>(b, _, _, _). length b)"
    by simp
qed

declare parse_extensions_loop.simps [simp del]

definition parse_extensions :: "WispBuffer \<Rightarrow> ext_class list \<Rightarrow> role \<Rightarrow> error + Extension list" where
  "parse_extensions payload_buffer valid_extensions r =
     parse_extensions_loop payload_buffer valid_extensions r []"

fun serialize_extensions_loop :: "WispBuffer \<Rightarrow> Extension list \<Rightarrow> error + WispBuffer" where
  "serialize_extensions_loop ext_buffer [] = Inr ext_buffer"
| "serialize_extensions_loop ext_buffer (extension # rest) =
     (case Extension_serialize extension of
        Inl e \<Rightarrow> Inl e
      | Inr b \<Rightarrow> serialize_extensions_loop (concat_buf ext_buffer b) rest)"

definition serialize_extensions :: "Extension list \<Rightarrow> error + WispBuffer" where
  "serialize_extensions exts = serialize_extensions_loop (WispBuffer_alloc 0) exts"

section \<open>The carrier (class AsyncRTCDataChannel)\<close>

text \<open>
  The wrapper's \<open>connected\<close> and \<open>_closed\<close> flags, its \<open>_lastError\<close>, and of the channel
  it wraps: \<open>readyState\<close>, \<open>bufferedAmount\<close> (an optional property of the interface), and
  the messages handed to \<open>channel.send\<close>, in order. A channel accepts a message when its
  \<open>readyState\<close> is open and raises otherwise.
\<close>

datatype ready_state = Connecting | Open | Closing | Closed

record AsyncRTCDataChannel =
  readyState :: ready_state
  bufferedAmount :: "int option"
  connected :: bool
  ch_closed :: bool
  lastError :: "error option"
  sent :: "WispBuffer list"

text \<open>
  \<open>send\<close> with a packet. The result is the error raised (if any) and the carrier after
  the call: a channel without \<open>bufferedAmount\<close> has sent the message when the call raises.
  Waiting for the send buffer to drain changes nothing here.
\<close>

definition ws_send :: "AsyncRTCDataChannel \<Rightarrow> WispPacket \<Rightarrow> error option \<times> AsyncRTCDataChannel" where
  "ws_send this packet =
     (if \<not> connected this \<and> readyState this \<noteq> Open
      then (Some (case lastError this of Some e \<Rightarrow> e | None \<Rightarrow> Error ''RTCDataChannel is not open''), this)
      else case serialize packet of
             Inl e \<Rightarrow> (Some e, this)
           | Inr bytes \<Rightarrow>
               if readyState this \<noteq> Open then (Some (Error ''InvalidStateError''), this)
               else (let sent_this = this\<lparr>sent := sent this @ [bytes]\<rparr>
                     in case bufferedAmount this of
                          None \<Rightarrow> (Some (Error ''bufferedAmount is not a number''), sent_this)
                        | Some _ \<Rightarrow> (None, sent_this)))"

definition ws_close :: "AsyncRTCDataChannel \<Rightarrow> AsyncRTCDataChannel" where
  "ws_close this =
     (let closing = (if readyState this \<noteq> Closing \<and> readyState this \<noteq> Closed
                     then this\<lparr>readyState := Closing\<rparr> else this)
      in closing\<lparr>ch_closed := True\<rparr>)"

text \<open>
  \<open>connect\<close>: \<open>opens\<close> tells whether a channel still connecting opens (or closes first).
  When it closes first, the close handler the constructor installed runs as well: it
  clears \<open>connected\<close> and sets \<open>_closed\<close>.
\<close>

definition ws_connect :: "bool \<Rightarrow> AsyncRTCDataChannel \<Rightarrow> error option \<times> AsyncRTCDataChannel" where
  "ws_connect opens this =
     (if connected this then (None, this)
      else if readyState this = Open then (None, this\<lparr>connected := True\<rparr>)
      else if readyState this = Closing \<or> readyState this = Closed
      then (Some (case lastError this of Some e \<Rightarrow> e | None \<Rightarrow> Error ''RTCDataChannel is already closed''), this)
      else if opens then (None, this\<lparr>readyState := Open, connected := True\<rparr>)
      else (Some (case lastError this of Some e \<Rightarrow> e | None \<Rightarrow> Error ''RTCDataChannel closed before open''),
            this\<lparr>readyState := Closed, connected := False, ch_closed := True\<rparr>))"

section \<open>Destination sockets (net.ts, NodeTCPSocket and NodeUDPSocket)\<close>

text \<open>
  Both classes keep \<open>hostname\<close>, \<open>port\<close>, the operating-system socket (\<open>this.socket\<close>, null
  until \<open>connect\<close> and after \<open>close\<close>) and \<open>connected\<close>. \<open>has_socket\<close> says that
  \<open>this.socket\<close> is not null; \<open>written\<close> lists the chunks written to it.
\<close>

datatype socket_impl = TCPSocket | UDPSocket

record Socket =
  impl :: socket_impl
  sock_hostname :: js_string
  sock_port :: int
  has_socket :: bool
  sock_connected :: bool
  written :: "WispBuffer list"

definition Socket_new :: "socket_impl \<Rightarrow> js_string \<Rightarrow> int \<Rightarrow> Socket" where
  "Socket_new i h p =
     \<lparr>impl = i, sock_hostname = h, sock_port = p, has_socket = False, sock_connected = False,
      written = []\<rparr>"

text \<open>
  \<open>connect\<close> looks the hostname up, creates the socket object and connects it. What comes
  of it is given: the lookup raises (no socket object yet), the connection attempt fails
  (the socket object is stored already), or the socket connects.
\<close>

datatype connect_outcome = LookupFails error | ConnectFails error | Connects

definition Socket_connect :: "connect_outcome \<Rightarrow> Socket \<Rightarrow> error option \<times> Socket" where
  "Socket_connect outcome this =
     (case outcome of
        LookupFails e \<Rightarrow> (Some e, this)
      | ConnectFails e \<Rightarrow> (Some e, this\<lparr>has_socket := True\<rparr>)
      | Connects \<Rightarrow> (None, this\<lparr>has_socket := True, sock_connected := True\<rparr>))"

definition Socket_send :: "Socket \<Rightarrow> WispBuffer \<Rightarrow> error option \<times> Socket" where
  "Socket_send this d =
     (if \<not> has_socket this
      then (Some (Error (if impl this = TCPSocket then ''TCP socket not connected''
                         else ''UDP socket not connected'')), this)
      else (None, this\<lparr>written := written this @ [d]\<rparr>))"

definition Socket_close :: "Socket \<Rightarrow> Socket" where
  "Socket_close this =
     (if \<not> has_socket this then this
      else this\<lparr>has_socket := False, sock_connected := False\<rparr>)"

section \<open>The per-stream buffer (a PassThrough in object mode)\<close>

text \<open>
  \<open>new PassThrough({objectMode: true, highWaterMark: 128})\<close> is a transform stream with a
  writable and a readable side. \<open>write\<close> hands the chunk to the transform, which pushes it
  on the readable side (\<open>rbuf\<close>, whose length is \<open>readableLength\<close>); when the readable side
  has reached the high-water mark the transform keeps the write's callback (\<open>held\<close>), and
  every later \<open>write\<close> queues its chunk on the writable side (\<open>wbuf\<close>). A \<open>read\<close> that brings
  the readable side under the mark releases the callback, which lets the writable side
  hand over queued chunks until the callback is kept again; once the writable side has
  ended the transform keeps no callback, so the queued chunks are all handed over.
  \<open>write\<close> never refuses a chunk before \<open>end\<close>; after \<open>end\<close> a write is an error and its
  chunk is dropped.
\<close>

definition buffer_size :: nat where
  "buffer_size = 128"

record PassThrough =
  rbuf :: "WispBuffer list"
  wbuf :: "WispBuffer list"
  held :: bool
  ended :: bool

definition PassThrough_new :: PassThrough where
  "PassThrough_new = \<lparr>rbuf = [], wbuf = [], held = False, ended = False\<rparr>"

definition readableLength :: "PassThrough \<Rightarrow> nat" where
  "readableLength p = length (rbuf p)"

definition pt_transform :: "WispBuffer \<Rightarrow> PassThrough \<Rightarrow> PassThrough" where
  "pt_transform chunk p =
     (let r = rbuf p @ [chunk]
      in p\<lparr>rbuf := r, held := \<not> (ended p \<or> length r < buffer_size)\<rparr>)"

definition pt_write :: "WispBuffer \<Rightarrow> PassThrough \<Rightarrow> PassThrough" where
  "pt_write chunk p =
     (if ended p then p
      else if held p then p\<lparr>wbuf := wbuf p @ [chunk]\<rparr>
      else pt_transform chunk p)"

fun pt_clearBuffer :: "WispBuffer list \<Rightarrow> PassThrough \<Rightarrow> PassThrough" where
  "pt_clearBuffer [] p = p\<lparr>wbuf := []\<rparr>"
| "pt_clearBuffer (chunk # queued) p =
     (if held p then p\<lparr>wbuf := chunk # queued\<rparr>
      else pt_clearBuffer queued (pt_transform chunk p))"

definition pt_read :: "PassThrough \<Rightarrow> WispBuffer option \<times> PassThrough" where
  "pt_read p =
     (case rbuf p of
        [] \<Rightarrow> (None, p)
      | _ # _ \<Rightarrow>
          (let p1 = (if held p \<and> length (rbuf p) - 1 < buffer_size
                     then pt_clearBuffer (wbuf p) (p\<lparr>held := False\<rparr>) else p)
           in (Some (hd (rbuf p1)), p1\<lparr>rbuf := tl (rbuf p1)\<rparr>)))"

definition pt_end :: "PassThrough \<Rightarrow> PassThrough" where
  "pt_end p = p\<lparr>ended := True\<rparr>"

text \<open>The readable side is over once the stream was ended and nothing is left on either
  side.\<close>

definition pt_finished :: "PassThrough \<Rightarrow> bool" where
  "pt_finished p = (ended p \<and> rbuf p = [] \<and> wbuf p = [])"

text \<open>Everything the buffer holds: the readable side, then the queued writes.\<close>

definition pt_contents :: "PassThrough \<Rightarrow> WispBuffer list" where
  "pt_contents p = rbuf p @ wbuf p"

section \<open>Streams and connections (connection.ts)\<close>

datatype log_level = DEBUG | INFO | WARN | ERROR

text \<open>
  A stream holds its id, its destination socket, its client-to-target buffer, the send
  counter and the \<open>closed\<close> flag. \<open>ws_to_tcp_running\<close> says that the \<open>ws_to_tcp\<close> task has
  been started by \<open>setup\<close> and has not left its loop.
\<close>

record ServerStream =
  ss_stream_id :: int
  socket :: Socket
  clientToTarget :: PassThrough
  packets_sent :: nat
  closed :: bool
  ws_to_tcp_running :: bool

text \<open>
  A connection holds the carrier, the protocol version, the advertised extensions, the
  stream table (an object keyed by stream id), the negotiated extensions, and here the
  lines it has logged (level and message, without the interpolated values).
  \<open>ping_task\<close> is null throughout the code.
\<close>

record ServerConnection =
  ws :: AsyncRTCDataChannel
  wisp_version :: int
  wisp_extensions :: "Extension list option"
  streams :: "(int \<times> ServerStream) list"
  server_exts :: "(int \<times> Extension) list"
  client_exts :: "(int \<times> Extension) list"
  logged :: "(log_level \<times> string) list"

definition logging :: "log_level \<Rightarrow> string \<Rightarrow> ServerConnection \<Rightarrow> ServerConnection" where
  "logging lvl m c = c\<lparr>logged := logged c @ [(lvl, m)]\<rparr>"

definition ServerStream_new :: "int \<Rightarrow> Socket \<Rightarrow> ServerStream" where
  "ServerStream_new sid sock =
     \<lparr>ss_stream_id = sid, socket = sock, clientToTarget = PassThrough_new, packets_sent = 0,
      closed = False, ws_to_tcp_running = False\<rparr>"

definition put_data :: "ServerStream \<Rightarrow> WispBuffer \<Rightarrow> ServerStream" where
  "put_data this d = this\<lparr>clientToTarget := pt_write d (clientToTarget this)\<rparr>"

text \<open>
  \<open>ServerStream.close(reason)\<close>; the methods of a stream reach the carrier through
  \<open>this.conn\<close>, so they take and return the connection. \<open>reason == null\<close> holds for null
  and undefined only: the reason 0 is sent.
\<close>

definition ServerStream_close ::
  "ServerConnection \<Rightarrow> ServerStream \<Rightarrow> int option \<Rightarrow> error option \<times> ServerConnection \<times> ServerStream" where
  "ServerStream_close conn this rsn =
     (if closed this then (None, conn, this)
      else (let this1 = this\<lparr>closed := True,
                               clientToTarget := pt_end (clientToTarget this),
                               socket := Socket_close (socket this)\<rparr>
            in case rsn of
                 None \<Rightarrow> (None, conn, this1)
               | Some r \<Rightarrow>
                   (let (err, ws1) = ws_send (ws conn) (packet_of (ss_stream_id this) (ClosePayload r))
                    in (err, conn\<lparr>ws := ws1\<rparr>, this1))))"

text \<open>
  One turn of the \<open>for await\<close> loop of \<open>ws_to_tcp\<close>. With nothing to read the task waits,
  or leaves the loop and closes the stream when the buffer is over. Otherwise it takes a
  chunk and sends it to the socket; an error of the send leaves the loop, is logged by the
  handler that \<open>setup\<close> installed, and closes the stream. The CONTINUE packet is sent
  without \<open>await\<close>: an error of that send reaches nobody.
\<close>

definition ws_to_tcp_step :: "ServerConnection \<Rightarrow> ServerStream \<Rightarrow> ServerConnection \<times> ServerStream" where
  "ws_to_tcp_step conn this =
     (if \<not> ws_to_tcp_running this then (conn, this)
      else case pt_read (clientToTarget this) of
             (None, _) \<Rightarrow>
               if pt_finished (clientToTarget this)
               then (let (err, conn1, this1) = ServerStream_close conn (this\<lparr>ws_to_tcp_running := False\<rparr>) None
                     in (conn1, this1))
               else (conn, this)
           | (Some d, buf) \<Rightarrow>
               (let this1 = this\<lparr>clientToTarget := buf\<rparr>
                in case Socket_send (socket this1) d of
                     (Some e, sock) \<Rightarrow>
                       (let (err, conn1, this2) =
                              ServerStream_close
                                (logging ERROR ''a ws to tcp/udp task encountered an error'' conn)
                                (this1\<lparr>socket := sock, ws_to_tcp_running := False\<rparr>) None
                        in (conn1, this2))
                   | (None, sock) \<Rightarrow>
                       (let this2 = this1\<lparr>socket := sock, packets_sent := packets_sent this1 + 1\<rparr>
                        in if packets_sent this2 mod (buffer_size div 2) \<noteq> 0 then (conn, this2)
                           else (let remaining =
                                       int buffer_size - int (readableLength (clientToTarget this2));
                                     packet = packet_of (ss_stream_id this2) (ContinuePayload remaining)
                                 in (conn\<lparr>ws := snd (ws_send (ws conn) packet)\<rparr>, this2)))))"

text \<open>\<open>ServerStream.setup\<close>: connect the socket, then start the tasks.\<close>

definition ServerStream_setup :: "connect_outcome \<Rightarrow> ServerStream \<Rightarrow> error option \<times> ServerStream" where
  "ServerStream_setup outcome this =
     (let (err, sock) = Socket_connect outcome (socket this)
      in case err of
           Some e \<Rightarrow> (Some e, this\<lparr>socket := sock\<rparr>)
         | None \<Rightarrow> (None, this\<lparr>socket := sock, ws_to_tcp_running := True\<rparr>))"

text \<open>
  \<open>close_stream\<close>: the stream found under the id is closed and then removed from the table;
  when \<open>close\<close> raises, the stream stays in the table. In JavaScript \<open>reason && !quiet\<close>
  is false for the reason 0.
\<close>

definition close_stream ::
  "ServerConnection \<Rightarrow> int \<Rightarrow> int option \<Rightarrow> bool \<Rightarrow> error option \<times> ServerConnection" where
  "close_stream this sid rsn quiet =
     (case map_of (streams this) sid of
        None \<Rightarrow> (None, this)
      | Some stream \<Rightarrow>
          (let this1 = (if rsn \<noteq> None \<and> rsn \<noteq> Some 0 \<and> \<not> quiet
                        then logging INFO ''closing stream'' this else this);
               (err, this2, stream1) = ServerStream_close this1 stream rsn
           in case err of
                Some e \<Rightarrow> (Some e, this2\<lparr>streams := AList.update sid stream1 (streams this2)\<rparr>)
              | None \<Rightarrow> (None, this2\<lparr>streams := AList.delete sid (streams this2)\<rparr>)))"

text \<open>\<open>cleanup\<close>: close every stream of the table without a reason, then close the carrier.\<close>

fun cleanup_loop :: "int list \<Rightarrow> ServerConnection \<Rightarrow> error option \<times> ServerConnection" where
  "cleanup_loop [] this = (None, this)"
| "cleanup_loop (sid # sids) this =
     (let (err, this1) = close_stream this sid None False
      in case err of Some e \<Rightarrow> (Some e, this1) | None \<Rightarrow> cleanup_loop sids this1)"

definition cleanup :: "ServerConnection \<Rightarrow> error option \<times> ServerConnection" where
  "cleanup this =
     (let (err, this1) = cleanup_loop (map fst (streams this)) this
      in case err of
           Some e \<Rightarrow> (Some e, this1)
         | None \<Rightarrow>
             (let this2 = logging INFO ''wisp connection closed'' this1
              in (None, this2\<lparr>ws := ws_close (ws this2)\<rparr>)))"

section \<open>Options and the destination policy (options, filter.ts)\<close>

text \<open>
  The fields of \<open>options\<close> that the modelled code reads. A regular expression is the
  predicate its \<open>test\<close> computes; a port entry is a port or an inclusive range.
\<close>

datatype port_entry = Port int | PortRange int int

record options =
  hostname_blacklist :: "(js_string \<Rightarrow> bool) list option"
  hostname_whitelist :: "(js_string \<Rightarrow> bool) list option"
  port_blacklist :: "port_entry list option"
  port_whitelist :: "port_entry list option"
  allow_direct_ip :: bool
  allow_private_ips :: bool
  allow_loopback_ips :: bool
  stream_limit_per_host :: int
  stream_limit_total :: int
  allow_udp_streams :: bool
  allow_tcp_streams :: bool
  dns_ttl :: int
  wisp_motd :: "js_string option"

text \<open>The defaults of the options file.\<close>

definition default_options :: options where
  "default_options =
     \<lparr>hostname_blacklist = None, hostname_whitelist = None, port_blacklist = None,
      port_whitelist = None, allow_direct_ip = True, allow_private_ips = False,
      allow_loopback_ips = False, stream_limit_per_host = - 1, stream_limit_total = - 1,
      allow_udp_streams = True, allow_tcp_streams = True, dns_ttl = 120, wisp_motd = None\<rparr>"

text \<open>The constants of packet.ts.\<close>

definition stream_types_TCP :: int where "stream_types_TCP = 1"
definition stream_types_UDP :: int where "stream_types_UDP = 2"

definition Voluntary :: int where "Voluntary = 0x02"
definition NetworkError :: int where "NetworkError = 0x03"
definition InvalidInfo :: int where "InvalidInfo = 0x41"
definition HostBlocked :: int where "HostBlocked = 0x48"
definition ConnThrottled :: int where "ConnThrottled = 0x49"

text \<open>
  What the code asks of its surroundings: whether it runs on Node, the library ipaddr.js
  (\<open>isValid\<close>, and the \<open>range()\<close> of a parsed address), the result of \<open>net.lookup_ip\<close>
  for a hostname at the time of the call, and what comes of connecting a socket.
\<close>

datatype ip_range_name =
    Loopback | Unspecified | Broadcast | LinkLocal | CarrierGradeNat | Private | Reserved
  | OtherRange

record env =
  opts :: options
  is_node :: bool
  ipaddr_isValid :: "js_string \<Rightarrow> bool"
  ipaddr_range :: "js_string \<Rightarrow> ip_range_name"
  net_lookup_ip :: "js_string \<Rightarrow> error + js_string option"
  socket_connects :: "js_string \<Rightarrow> int \<Rightarrow> connect_outcome"

fun check_port_range :: "port_entry \<Rightarrow> int \<Rightarrow> bool" where
  "check_port_range (PortRange lo hi) p = (lo \<le> p \<and> hi \<ge> p)"
| "check_port_range (Port q) p = (q = p)"

definition check_whitelist :: "'a list \<Rightarrow> ('a \<Rightarrow> bool) \<Rightarrow> bool" where
  "check_whitelist entries f = (\<not> list_ex f entries)"

definition check_blacklist :: "'a list \<Rightarrow> ('a \<Rightarrow> bool) \<Rightarrow> bool" where
  "check_blacklist entries f = list_ex f entries"

definition check_ip_range :: "ip_range_name \<Rightarrow> ip_range_name list \<Rightarrow> bool" where
  "check_ip_range ip_range ranges = list_ex (\<lambda>r. ip_range = r) ranges"

text \<open>\<open>is_ip_blocked\<close>; the argument is undefined when the lookup resolved to undefined.\<close>

definition is_ip_blocked :: "env \<Rightarrow> js_string option \<Rightarrow> bool" where
  "is_ip_blocked ev ip_str =
     (case ip_str of
        None \<Rightarrow> False
      | Some ip \<Rightarrow>
          if \<not> ipaddr_isValid ev ip then False
          else if \<not> allow_loopback_ips (opts ev) \<and>
                  check_ip_range (ipaddr_range ev ip) [Loopback, Unspecified] then True
          else if \<not> allow_private_ips (opts ev) \<and>
                  check_ip_range (ipaddr_range ev ip)
                    [Broadcast, LinkLocal, CarrierGradeNat, Private, Reserved] then True
          else False)"

text \<open>
  \<open>is_stream_allowed\<close> returns the close reason, 0 when the stream is allowed. The
  connection is optional; its stream table is read when the quota checks run.
\<close>

definition is_stream_allowed ::
  "env \<Rightarrow> ServerConnection option \<Rightarrow> int \<Rightarrow> js_string \<Rightarrow> int \<Rightarrow> int" where
  "is_stream_allowed ev connection t host prt =
     (if \<not> allow_tcp_streams (opts ev) \<and> t = stream_types_TCP then HostBlocked
      else if \<not> allow_udp_streams (opts ev) \<and> t = stream_types_UDP then HostBlocked
      else if (case hostname_whitelist (opts ev) of
                 Some wl \<Rightarrow> check_whitelist wl (\<lambda>entry. entry host)
               | None \<Rightarrow>
                   (case hostname_blacklist (opts ev) of
                      Some bl \<Rightarrow> check_blacklist bl (\<lambda>entry. entry host)
                    | None \<Rightarrow> False)) then HostBlocked
      else if (case port_whitelist (opts ev) of
                 Some wl \<Rightarrow> check_whitelist wl (\<lambda>entry. check_port_range entry prt)
               | None \<Rightarrow>
                   (case port_blacklist (opts ev) of
                      Some bl \<Rightarrow> check_blacklist bl (\<lambda>entry. check_port_range entry prt)
                    | None \<Rightarrow> False)) then HostBlocked
      else if ipaddr_isValid ev host \<and> \<not> allow_direct_ip (opts ev) then HostBlocked
      else if is_ip_blocked ev
                (if ipaddr_isValid ev host then Some host
                 else case net_lookup_ip ev host of Inl e \<Rightarrow> Some host | Inr ip \<Rightarrow> ip)
           then HostBlocked
      else case connection of
             None \<Rightarrow> 0
           | Some conn \<Rightarrow>
               if stream_limit_total (opts ev) \<noteq> - 1 \<and>
                  int (length (streams conn)) \<ge> stream_limit_total (opts ev) then ConnThrottled
               else if stream_limit_per_host (opts ev) \<noteq> - 1 \<and>
                       int (length (filter (\<lambda>(k, stream). sock_hostname (socket stream) = host)
                                      (streams conn)))
                         \<ge> stream_limit_per_host (opts ev) then ConnThrottled
               else 0)"

section \<open>Creating and routing (connection.ts)\<close>

text \<open>
  \<open>create_stream\<close>, the part that runs at once: the socket class is chosen by the stream
  type, its constructor raises off Node, and the new stream is stored under its id.
\<close>

definition create_stream ::
  "env \<Rightarrow> ServerConnection \<Rightarrow> int \<Rightarrow> int \<Rightarrow> js_string \<Rightarrow> int \<Rightarrow> error + ServerConnection" where
  "create_stream ev this sid t host prt =
     (if \<not> is_node ev then Inl (Error ''not running on node.js'')
      else (let sock = Socket_new (if t = stream_types_TCP then TCPSocket else UDPSocket) host prt;
                stream = ServerStream_new sid sock
            in Inr (this\<lparr>streams := AList.update sid stream (streams this)\<rparr>)))"

text \<open>
  \<open>close_stream\<close> as seen by a task that holds a stream object: \<open>stream\<close> is that object
  and \<open>stored\<close> says that the table holds this very object under the id. The table is
  closed by id; the object held is closed with it when it is the one stored, and is left
  as it is otherwise.
\<close>

definition close_stream_holding ::
  "ServerConnection \<Rightarrow> ServerStream \<Rightarrow> bool \<Rightarrow> int \<Rightarrow> int option \<Rightarrow> bool
     \<Rightarrow> error option \<times> ServerConnection \<times> ServerStream" where
  "close_stream_holding this stream stored sid rsn quiet =
     (let (err, this1) = close_stream this sid rsn quiet
      in (err, this1, if stored then snd (snd (ServerStream_close this stream rsn)) else stream))"

text \<open>
  The task \<open>create_stream\<close> starts in the background. It holds the stream object that
  \<open>create_stream\<close> built: \<open>stream\<close> is that object as the task finds it, and \<open>stored\<close> says
  whether the table still holds this very object under the id (a CLOSE or another CONNECT
  for the id may have been routed in between). The policy is evaluated on the connection
  as it is then. A denied stream is closed quietly with the reason, by id. Otherwise
  \<open>setup\<close> runs on the object held, whatever the table holds, and when it fails the stream
  under the id is closed with NetworkError. The result is the error that escapes the task,
  the connection and the object held.
\<close>

definition create_stream_task ::
  "env \<Rightarrow> ServerConnection \<Rightarrow> ServerStream \<Rightarrow> bool \<Rightarrow> int \<Rightarrow> int \<Rightarrow> js_string \<Rightarrow> int
     \<Rightarrow> error option \<times> ServerConnection \<times> ServerStream" where
  "create_stream_task ev this stream stored sid t host prt =
     (let close_reason = is_stream_allowed ev (Some this) t host prt
      in if close_reason \<noteq> 0
         then close_stream_holding (logging WARN ''refusing to create a stream'' this) stream stored
                sid (Some close_reason) True
         else (let (err, stream1) = ServerStream_setup (socket_connects ev host prt) stream;
                   this1 = (if stored then this\<lparr>streams := AList.update sid stream1 (streams this)\<rparr>
                            else this)
               in case err of
                    None \<Rightarrow> (None, this1, stream1)
                  | Some e \<Rightarrow>
                      close_stream_holding (logging WARN ''creating a stream failed'' this1) stream1 stored
                        sid (Some NetworkError) False))"

text \<open>\<open>String.prototype.trim\<close>: white space and line terminators go, at both ends.\<close>

definition is_js_whitespace :: "16 word \<Rightarrow> bool" where
  "is_js_whitespace u =
     (let c = unat u
      in (0x09 \<le> c \<and> c \<le> 0x0D) \<or> c = 0x20 \<or> c = 0xA0 \<or> c = 0x1680 \<or>
         (0x2000 \<le> c \<and> c \<le> 0x200A) \<or> c = 0x2028 \<or> c = 0x2029 \<or> c = 0x202F \<or>
         c = 0x205F \<or> c = 0x3000 \<or> c = 0xFEFF)"

definition trim :: "js_string \<Rightarrow> js_string" where
  "trim str = rev (dropWhile is_js_whitespace (rev (dropWhile is_js_whitespace str)))"

text \<open>
  \<open>route_packet\<close>. A raised error leaves the connection as it was. The promise of
  \<open>close_stream\<close> is not awaited: an error of it reaches nobody.
\<close>

definition route_packet :: "env \<Rightarrow> ServerConnection \<Rightarrow> WispBuffer \<Rightarrow> error + ServerConnection" where
  "route_packet ev this buffer =
     (case parse_all buffer of
        Inl e \<Rightarrow> Inl e
      | Inr packet \<Rightarrow>
          (case payload packet of
             None \<Rightarrow> Inl (TypeError ''payload undefined'')
           | Some pl \<Rightarrow>
               (let stream = map_of (streams this) (stream_id packet)
                in if stream = None \<and> ptype packet = 2
                   then Inr (logging WARN ''received a DATA packet for a stream which doesn't exist'' this)
                   else if ptype packet = 1
                   then create_stream ev (logging INFO ''opening new stream'' this) (stream_id packet)
                          (stream_type pl) (trim (hostname pl)) (port pl)
                   else if ptype packet = 2
                   then (case stream of
                           None \<Rightarrow> Inl (TypeError ''stream undefined'')
                         | Some s \<Rightarrow>
                             Inr (this\<lparr>streams := AList.update (stream_id packet) (put_data s (data pl))
                                                     (streams this)\<rparr>))
                   else if ptype packet = 3
                   then Inr (logging WARN ''client sent a CONTINUE packet, this should never be possible'' this)
                   else if ptype packet = 4
                   then Inr (snd (close_stream this (stream_id packet) (Some (reason pl)) False))
                   else Inr this)))"

text \<open>One turn of the loop of \<open>run\<close>: an error of \<open>route_packet\<close> is logged.\<close>

definition run_step :: "env \<Rightarrow> ServerConnection \<Rightarrow> WispBuffer \<Rightarrow> ServerConnection" where
  "run_step ev this d =
     (case route_packet ev this d of
        Inl e \<Rightarrow> logging WARN ''routing a packet failed'' this
      | Inr this1 \<Rightarrow> this1)"

section \<open>The version-2 handshake (connection.ts)\<close>

text \<open>\<open>add_extensions\<close>: in JavaScript an empty \<open>wisp_motd\<close> is false.\<close>

definition add_extensions :: "options \<Rightarrow> Extension list" where
  "add_extensions os =
     (if allow_udp_streams os then [BaseExtension_new UDPExtension (Some EmptyConfig) None] else []) @
     (case wisp_motd os of
        None \<Rightarrow> []
      | Some m \<Rightarrow>
          if m = [] then []
          else [BaseExtension_new MOTDExtension (Some (MessageConfig m)) None])"

text \<open>The constructor: the carrier is wrapped, the version is 1 when none (or 0) is
  given, the tables are empty, and a version-2 connection without given extensions
  advertises those of \<open>add_extensions\<close>.\<close>

definition ServerConnection_new ::
  "options \<Rightarrow> AsyncRTCDataChannel \<Rightarrow> int option \<Rightarrow> Extension list option \<Rightarrow> ServerConnection" where
  "ServerConnection_new os channel version exts =
     (let v = (case version of None \<Rightarrow> 1 | Some n \<Rightarrow> if n = 0 then 1 else n)
      in \<lparr>ws = channel, wisp_version = v,
          wisp_extensions = (if v = 2 \<and> exts = None then Some (add_extensions os) else exts),
          streams = [], server_exts = [], client_exts = [], logged = []\<rparr>)"

text \<open>The two loops that record the extensions both sides have.\<close>

fun record_server_exts ::
  "Extension \<Rightarrow> Extension list \<Rightarrow> ServerConnection \<Rightarrow> ServerConnection" where
  "record_server_exts client_ext [] this = this"
| "record_server_exts client_ext (server_ext # rest) this =
     record_server_exts client_ext rest
       (if ext_id server_ext = ext_id client_ext
        then this\<lparr>server_exts := AList.update (ext_id server_ext) server_ext (server_exts this),
                  client_exts := AList.update (ext_id client_ext) client_ext (client_exts this)\<rparr>
        else this)"

fun record_common_exts ::
  "Extension list \<Rightarrow> Extension list \<Rightarrow> ServerConnection \<Rightarrow> ServerConnection" where
  "record_common_exts [] server this = this"
| "record_common_exts (client_ext # rest) server this =
     record_common_exts rest server (record_server_exts client_ext server this)"

text \<open>
  \<open>setup_wisp_v2\<close>; \<open>received\<close> is what \<open>await this.ws.recv()\<close> gives: a message, or null
  when the carrier closed. The result is the error raised, if any, and the connection
  after the call. The INFO packet is sent without \<open>await\<close>.
\<close>

definition setup_wisp_v2 ::
  "ServerConnection \<Rightarrow> WispBuffer option \<Rightarrow> error option \<times> ServerConnection" where
  "setup_wisp_v2 this received =
     (case wisp_extensions this of
        None \<Rightarrow> (Some (TypeError ''wisp_extensions is not iterable''), this)
      | Some exts \<Rightarrow>
          (case serialize_extensions exts of
             Inl e \<Rightarrow> (Some e, this)
           | Inr ext_buffer \<Rightarrow>
               (let info_packet = packet_of 0 (InfoPayload (wisp_version this) 0 ext_buffer);
                    this1 = this\<lparr>ws := snd (ws_send (ws this) info_packet)\<rparr>
                in case received of
                     None \<Rightarrow>
                       (let (err, this2) =
                              cleanup (logging WARN ''handshake error: ws closed before handshake complete'' this1)
                        in (Some (case err of Some e \<Rightarrow> e | None \<Rightarrow> HandshakeError), this2))
                   | Some bytes \<Rightarrow>
                       (case parse_all bytes of
                          Inl e \<Rightarrow> (Some e, this1)
                        | Inr packet \<Rightarrow>
                            if ptype packet \<noteq> 5
                            then (let (err, this2) =
                                        cleanup (logging WARN ''handshake error: unexpected packet'' this1)
                                  in (Some (case err of Some e \<Rightarrow> e | None \<Rightarrow> HandshakeError), this2))
                            else (case payload packet of
                                    None \<Rightarrow> (Some (TypeError ''payload undefined''), this1)
                                  | Some pl \<Rightarrow>
                                      (case parse_extensions (extensions pl) (map ext_cls exts) Client of
                                         Inl e \<Rightarrow> (Some e, this1)
                                       | Inr client_extensions \<Rightarrow>
                                           (None, record_common_exts client_extensions exts this1)))))))"

text \<open>\<open>ServerConnection.setup\<close>: open the carrier, run the handshake of version 2, send the first CONTINUE
  (without \<open>await\<close>).\<close>

definition ServerConnection_setup ::
  "bool \<Rightarrow> ServerConnection \<Rightarrow> WispBuffer option \<Rightarrow> error option \<times> ServerConnection" where
  "ServerConnection_setup opens this received =
     (let this0 = logging INFO ''setting up new wisp connection'' this;
          (err, ws1) = ws_connect opens (ws this0);
          this1 = this0\<lparr>ws := ws1\<rparr>
      in case err of
           Some e \<Rightarrow> (Some e, this1)
         | None \<Rightarrow>
             (let (err2, this2) = (if wisp_version this1 = 2 then setup_wisp_v2 this1 received
                                    else (None, this1))
              in case err2 of
                   Some e \<Rightarrow> (Some e, this2)
                 | None \<Rightarrow>
                     (None, this2\<lparr>ws := snd (ws_send (ws this2)
                                                (packet_of 0 (ContinuePayload (int buffer_size))))\<rparr>)))"

section \<open>The DNS cache (net.ts, lookup_ip)\<close>

text \<open>
  A cache entry has its time and an address or an error. The cache is a map from
  hostnames. \<open>Date.now()\<close> is in milliseconds.
\<close>

record cache_entry =
  time :: int
  address :: "js_string option"
  error :: "error option"

type_synonym dns_cache = "js_string \<rightharpoonup> cache_entry"

text \<open>The loop that removes stale entries.\<close>

definition evict_stale :: "int \<Rightarrow> int \<Rightarrow> dns_cache \<Rightarrow> dns_cache" where
  "evict_stale now ttl_option cache =
     (\<lambda>entry_hostname.
        case cache entry_hostname of
          None \<Rightarrow> None
        | Some entry \<Rightarrow> if now - time entry > ttl_option then None else Some entry)"

text \<open>
  \<open>lookup_ip\<close>: \<open>isIP\<close> is \<open>net.isIP\<close>; \<open>now\<close> is \<open>Date.now()\<close> at the call and \<open>now_stored\<close>
  when the result is stored; \<open>perform_lookup\<close> is the outcome of the resolution, were it
  performed. The result is the value returned or raised, the cache after the call, and
  whether a resolution was performed.
\<close>

definition lookup_ip ::
  "options \<Rightarrow> bool \<Rightarrow> (js_string \<Rightarrow> int) \<Rightarrow> int \<Rightarrow> int \<Rightarrow> (js_string \<Rightarrow> error + js_string) \<Rightarrow>
   dns_cache \<Rightarrow> js_string \<Rightarrow> (error + js_string option) \<times> dns_cache \<times> bool" where
  "lookup_ip os on_node isIP now now_stored perform_lookup cache host =
     (if \<not> on_node then (Inr (Some host), cache, False)
      else if isIP host = 4 \<or> isIP host = 6 then (Inr (Some host), cache, False)
      else (let cache1 = evict_stale now (dns_ttl os) cache
            in case cache1 host of
                 Some entry \<Rightarrow>
                   (case error entry of
                      Some e \<Rightarrow> (Inl e, cache1, False)
                    | None \<Rightarrow> (Inr (address entry), cache1, False))
               | None \<Rightarrow>
                   (case perform_lookup host of
                      Inr a \<Rightarrow>
                        (Inr (Some a),
                         cache1(host \<mapsto> \<lparr>time = now_stored, address = Some a, error = None\<rparr>), True)
                    | Inl e \<Rightarrow>
                        (Inl e,
                         cache1(host \<mapsto> \<lparr>time = now_stored, address = None, error = Some e\<rparr>), True))))"

section \<open>Notions used by the properties\<close>

text \<open>
  A string is Unicode text when each of its surrogates is half of a pair, a high one
  followed by a low one: these are the strings that UTF-8 can carry. \<open>code_points\<close>
  reads such a string as its code points.
\<close>

fun well_formed_utf16 :: "js_string \<Rightarrow> bool" where
  "well_formed_utf16 [] = True"
| "well_formed_utf16 [u] = (\<not> is_high_surrogate u \<and> \<not> is_low_surrogate u)"
| "well_formed_utf16 (u # l # us) =
     (if is_high_surrogate u then is_low_surrogate l \<and> well_formed_utf16 us
      else \<not> is_low_surrogate u \<and> well_formed_utf16 (l # us))"

fun code_points :: "js_string \<Rightarrow> nat list" where
  "code_points [] = []"
| "code_points [u] = [unat u]"
| "code_points (u # l # us) =
     (if is_high_surrogate u \<and> is_low_surrogate l
      then (0x10000 + (unat u - 0xD800) * 0x400 + (unat l - 0xDC00)) # code_points us
      else unat u # code_points (l # us))"

text \<open>
  A well-formed payload: every number fits its field, and the hostname is Unicode text.
  A hostname may begin with the byte order mark U+FEFF; \<open>leading_bom\<close> says that the
  hostname of a CONNECT payload does.
\<close>

fun well_formed_payload :: "payload \<Rightarrow> bool" where
  "well_formed_payload (ConnectPayload st p h) =
     (0 \<le> st \<and> st < 256 \<and> 0 \<le> p \<and> p < 65536 \<and> well_formed_utf16 h)"
| "well_formed_payload (DataPayload d) = True"
| "well_formed_payload (ContinuePayload n) = (0 \<le> n \<and> n < 4294967296)"
| "well_formed_payload (ClosePayload r) = (0 \<le> r \<and> r < 256)"
| "well_formed_payload (InfoPayload ma mi exts) = (0 \<le> ma \<and> ma < 256 \<and> 0 \<le> mi \<and> mi < 256)"

fun leading_bom :: "payload \<Rightarrow> bool" where
  "leading_bom (ConnectPayload st p h) = (take 1 h = [0xFEFF])"
| "leading_bom _ = False"

text \<open>The four bytes of a number below \<open>2^32\<close>, least significant first.\<close>

definition u32_bytes :: "int \<Rightarrow> byte list" where
  "u32_bytes w =
     [word_of_int (w mod 256), word_of_int ((w div 256) mod 256),
      word_of_int ((w div 65536) mod 256), word_of_int (w div 16777216)]"

text \<open>The message a packet with a payload is on the carrier.\<close>

definition packet_bytes :: "WispPacket \<Rightarrow> WispBuffer" where
  "packet_bytes packet = (case serialize packet of Inr b \<Rightarrow> b | Inl e \<Rightarrow> [])"

text \<open>A carrier that is open, a destination for examples (the hostname is "a.b"), and
  surroundings with the default options, on Node, where no name is an address, every
  lookup gives "1.2.3.4" (the string) and every connection succeeds.\<close>

definition open_channel :: AsyncRTCDataChannel where
  "open_channel =
     \<lparr>readyState = Open, bufferedAmount = Some 0, connected = True, ch_closed = False,
      lastError = None, sent = []\<rparr>"

definition example_host :: js_string where
  "example_host = [0x61, 0x2E, 0x62]"

text \<open>A hostname beyond ASCII: "a", U+00E9, U+20AC, U+FEFF (not in front) and U+1F600, which
  takes a surrogate pair.\<close>

definition unicode_host :: js_string where
  "unicode_host = [0x61, 0xE9, 0x20AC, 0xFEFF, 0xD83D, 0xDE00]"

definition example_env :: env where
  "example_env =
     \<lparr>opts = default_options, is_node = True, ipaddr_isValid = (\<lambda>h. False),
      ipaddr_range = (\<lambda>h. OtherRange),
      net_lookup_ip = (\<lambda>h. Inr (Some [0x31, 0x2E, 0x32, 0x2E, 0x33, 0x2E, 0x34])),
      socket_connects = (\<lambda>h p. Connects)\<rparr>"

definition example_conn :: ServerConnection where
  "example_conn = ServerConnection_new default_options open_channel (Some 1) None"

text \<open>
  A complete extension record: a 5-byte header and as many payload bytes as the header
  declares. What the loop of \<open>parse_extensions\<close> adds for a record it takes whole: the
  first class of the allow-list with the record's id parses it, no class skips it.
\<close>

definition is_record :: "WispBuffer \<Rightarrow> bool" where
  "is_record rec = (5 \<le> length rec \<and> getUint32 rec 1 = Inr (int (length rec) - 5))"

definition record_result :: "ext_class list \<Rightarrow> role \<Rightarrow> WispBuffer \<Rightarrow> Extension list" where
  "record_result valid_extensions r rec =
     (case find (\<lambda>extension. ext_class_id extension = uint (rec ! 0)) valid_extensions of
        None \<Rightarrow> []
      | Some cls \<Rightarrow> [BaseExtension_parse cls rec r])"

text \<open>A stream with id 1 to that destination, set up, and a connection that has it.\<close>

definition example_stream :: ServerStream where
  "example_stream =
     snd (ServerStream_setup Connects (ServerStream_new 1 (Socket_new TCPSocket example_host 80)))"

definition example_conn1 :: ServerConnection where
  "example_conn1 = example_conn\<lparr>streams := [(1, example_stream)]\<rparr>"

text \<open>A version-2 connection on an open carrier, with the default options: it advertises
  the UDP extension.\<close>

definition example_conn_v2 :: ServerConnection where
  "example_conn_v2 = ServerConnection_new default_options open_channel (Some 2) None"

text \<open>The address "5.6.7.8", and a name lookup that finds no literal address.\<close>

definition example_address :: js_string where
  "example_address = [0x35, 0x2E, 0x36, 0x2E, 0x37, 0x2E, 0x38]"

definition no_literal :: "js_string \<Rightarrow> int" where
  "no_literal h = 0"

text \<open>
  What happens to one stream, in the order it happens: \<open>setup\<close> ends (with what came of
  connecting the socket), the packet reader hands over the data of a DATA packet,
  the \<open>ws_to_tcp\<close> task takes a turn, or the stream is closed (with a reason or without).
  A history is run from the state of the connection and of the stream.
\<close>

datatype stream_event =
    SetupEnds connect_outcome
  | PutData WispBuffer
  | PumpTurn
  | CloseStream "int option"

fun stream_step ::
  "stream_event \<Rightarrow> ServerConnection \<times> ServerStream \<Rightarrow> ServerConnection \<times> ServerStream" where
  "stream_step (SetupEnds outcome) (conn, s) = (conn, snd (ServerStream_setup outcome s))"
| "stream_step (PutData d) (conn, s) = (conn, put_data s d)"
| "stream_step PumpTurn (conn, s) = ws_to_tcp_step conn s"
| "stream_step (CloseStream rsn) (conn, s) = snd (ServerStream_close conn s rsn)"

fun stream_run ::
  "stream_event list \<Rightarrow> ServerConnection \<times> ServerStream \<Rightarrow> ServerConnection \<times> ServerStream" where
  "stream_run [] st = st"
| "stream_run (e # es) st = stream_run es (stream_step e st)"


text \<open>
  What holds of a stream whenever the code looks at it: its buffer has been ended
  exactly when the stream is closed, and until then the readable side has at most
  \<open>buffer_size\<close> entries and the transform keeps a write's callback exactly when the
  readable side is full.
\<close>

definition pt_invar :: "PassThrough \<Rightarrow> bool" where
  "pt_invar p = (length (rbuf p) \<le> buffer_size \<and> (held p \<longleftrightarrow> length (rbuf p) = buffer_size))"

definition stream_invar :: "ServerStream \<Rightarrow> bool" where
  "stream_invar s =
     ((ended (clientToTarget s) \<longleftrightarrow> closed s) \<and> (\<not> closed s \<longrightarrow> pt_invar (clientToTarget s)))"


text \<open>Histories for the examples: a stream is set up, 63 chunks go through it one at a
  time, and a 64th DATA packet arrives; later 63 more chunks and a 128th DATA packet.\<close>

definition example_history :: "stream_event list" where
  "example_history = SetupEnds Connects # concat (replicate 63 [PutData [0], PumpTurn]) @ [PutData [0]]"


definition example_start :: "ServerConnection \<times> ServerStream" where
  "example_start = (example_conn1, ServerStream_new 1 (Socket_new TCPSocket example_host 80))"

section \<open>Verified properties\<close>

subsection \<open>Bytes and numbers\<close>

lemma uint_byte: "uint (word_of_int (x mod 256) :: byte) = x mod 256"
  by (simp add: uint_word_of_int)

lemma div_65536: "(v::int) div 65536 = (v div 256) div 256"
  by (simp add: zdiv_zmult2_eq)

lemma div_16777216: "(v::int) div 16777216 = ((v div 256) div 256) div 256"
  by (simp add: zdiv_zmult2_eq)

lemma u32_recompose:
  fixes v :: int
  shows "v mod 256 + 256 * ((v div 256) mod 256) + 65536 * ((v div 65536) mod 256)
           + 16777216 * (v div 16777216) = v"
proof -
  have e1: "v = 256 * (v div 256) + v mod 256" by simp
  have e2: "v div 256 = 256 * ((v div 256) div 256) + (v div 256) mod 256" by simp
  have e3: "(v div 256) div 256 = 256 * (((v div 256) div 256) div 256) + ((v div 256) div 256) mod 256"
    by simp
  show ?thesis unfolding div_65536 div_16777216 using e1 e2 e3 by linarith
qed

lemma u16_recompose: "(v::int) mod 256 + 256 * (v div 256) = v"
  by simp

lemma top_byte_u32: "0 \<le> v \<Longrightarrow> v < 4294967296 \<Longrightarrow> 0 \<le> v div 16777216 \<and> v div 16777216 < (256::int)"
  by (simp add: div_less_iff_less_mult pos_imp_zdiv_nonneg_iff)

lemma uint_top_byte_u32:
  "0 \<le> v \<Longrightarrow> v < 4294967296 \<Longrightarrow> uint (word_of_int (v div 16777216) :: byte) = v div 16777216"
  using top_byte_u32[of v] by (simp add: uint_word_of_int del: div_less_iff_less_mult)

lemma top_byte_u16: "0 \<le> v \<Longrightarrow> v < 65536 \<Longrightarrow> 0 \<le> v div 256 \<and> v div 256 < (256::int)"
  by (simp add: div_less_iff_less_mult pos_imp_zdiv_nonneg_iff)

lemma uint_top_byte_u16:
  "0 \<le> v \<Longrightarrow> v < 65536 \<Longrightarrow> uint (word_of_int (v div 256) :: byte) = v div 256"
  using top_byte_u16[of v] by (simp add: uint_word_of_int del: div_less_iff_less_mult)

lemma uint_byte_id: "0 \<le> v \<Longrightarrow> v < 256 \<Longrightarrow> uint (word_of_int (v mod 256) :: byte) = v"
  by (simp add: uint_word_of_int)

lemma alloc5: "WispBuffer_alloc 5 = [0, 0, 0, 0, 0]"
  by (simp add: WispBuffer_alloc_def numeral_eq_Suc)

lemma header_bytes:
  "setUint32 (setUint8 (WispBuffer_alloc 5) 0 t) 1 v =
     word_of_int (t mod 256) # u32_bytes (v mod 4294967296)"
  by (simp add: alloc5 setUint32_def setUint8_def Let_def u32_bytes_def)

lemma getUint32_at0:
  "getUint32 (a # b # c # d # r) 0 = Inr (uint a + 256 * uint b + 65536 * uint c + 16777216 * uint d)"
  by (simp add: getUint32_def)

lemma getUint32_at1:
  "getUint32 (x # a # b # c # d # r) 1 =
     Inr (uint a + 256 * uint b + 65536 * uint c + 16777216 * uint d)"
  by (simp add: getUint32_def)

lemma u32_bytes_value:
  assumes "0 \<le> v" "v < 4294967296"
  shows "uint (word_of_int (v mod 256) :: byte)
         + 256 * uint (word_of_int ((v div 256) mod 256) :: byte)
         + 65536 * uint (word_of_int ((v div 65536) mod 256) :: byte)
         + 16777216 * uint (word_of_int (v div 16777216) :: byte) = v"
  unfolding uint_byte uint_top_byte_u32[OF assms] by (rule u32_recompose)

lemma getUint32_u32_bytes:
  assumes "0 \<le> v" "v < 4294967296"
  shows "getUint32 (x # u32_bytes v @ r) 1 = Inr v"
  unfolding u32_bytes_def append.simps getUint32_at1 u32_bytes_value[OF assms] ..

lemma getUint32_u32_bytes0:
  assumes "0 \<le> v" "v < 4294967296"
  shows "getUint32 (u32_bytes v @ r) 0 = Inr v"
  unfolding u32_bytes_def append.simps getUint32_at0 u32_bytes_value[OF assms] ..

lemma length_u32_bytes: "length (u32_bytes v) = 4"
  by (simp add: u32_bytes_def)

lemma getUint8_at0: "getUint8 (a # r) 0 = Inr (uint a)"
  by (simp add: getUint8_def)

lemma getUint8_at1: "getUint8 (x # a # r) 1 = Inr (uint a)"
  by (simp add: getUint8_def)

lemma getUint16_at1: "getUint16 (x # a # b # r) 1 = Inr (uint a + 256 * uint b)"
  by (simp add: getUint16_def)

lemma slice_3: "slice (a # b # c # r) 3 None = r"
  by (simp add: slice_def clamp_index_def)

lemma slice_2: "slice (a # b # r) 2 None = r"
  by (simp add: slice_def clamp_index_def)

lemma slice_5: "slice (a # b # c # d # e # r) 5 None = r"
  by (simp add: slice_def clamp_index_def)

subsection \<open>Text through the codec\<close>

text \<open>
  The decoder undoes the encoder on every code point that is not a surrogate, whatever
  follows it; so text without a lone surrogate comes back as its code points, and these
  give the string back unless the first of them is the byte order mark, which the decoder
  drops.
\<close>

lemma unat_byte_of_nat:
  assumes "n < 256"
  shows "unat (of_nat n :: byte) = n"
proof -
  have "unat (of_nat n :: byte) = n mod 2 ^ LENGTH(8)" by (rule unat_of_nat)
  then show ?thesis using assms by simp
qed

lemma cont_mod:
  assumes "c < 64" shows "(128 + c) mod 64 = (c::nat)"
proof -
  have "(c + 64 * 2) mod 64 = c mod 64" by (rule mod_mult_self2)
  then have "(c + 128) mod 64 = c" using assms by simp
  then show ?thesis by (simp only: add.commute)
qed

lemma decode_ascii_byte:
  assumes "unat w < 128"
  shows "utf8_decode 0 0 128 191 (w # bs) = unat w # utf8_decode 0 0 128 191 bs"
  using assms by (simp add: Let_def)

lemma decode_lead_byte:
  assumes "128 \<le> unat w" "utf8_lead (unat w) = Some (n, c, lo, hi)"
  shows "utf8_decode 0 0 128 191 (w # bs) = utf8_decode c n lo hi bs"
  using assms by (simp add: Let_def)

lemma decode_last_byte:
  assumes "c < 64" "lo \<le> 128 + c" "128 + c \<le> hi"
  shows "utf8_decode acc 1 lo hi (of_nat (128 + c) # bs) = (acc * 64 + c) # utf8_decode 0 0 128 191 bs"
proof -
  have u: "unat (of_nat (128 + c) :: byte) = 128 + c"
    using assms(1) by (intro unat_byte_of_nat) simp
  have m: "(128 + c) mod 64 = c" using assms(1) by (rule cont_mod)
  show ?thesis using assms(2,3) by (simp add: Let_def u m del: of_nat_add)
qed

lemma decode_middle_byte:
  assumes "c < 64" "lo \<le> 128 + c" "128 + c \<le> hi" "2 \<le> n"
  shows "utf8_decode acc n lo hi (of_nat (128 + c) # bs) = utf8_decode (acc * 64 + c) (n - 1) 128 191 bs"
proof -
  have u: "unat (of_nat (128 + c) :: byte) = 128 + c"
    using assms(1) by (intro unat_byte_of_nat) simp
  have m: "(128 + c) mod 64 = c" using assms(1) by (rule cont_mod)
  show ?thesis using assms(2,3,4) by (simp add: Let_def u m del: of_nat_add)
qed


lemma lead_mod:
  assumes "a < k" shows "(k * j + a) mod k = (a::nat)"
  using assms by simp

lemma decode_two_bytes:
  assumes "128 \<le> cp" "cp < 2048"
  shows "utf8_decode 0 0 128 191 (of_nat (192 + cp div 64) # of_nat (128 + cp mod 64) # bs)
           = cp # utf8_decode 0 0 128 191 bs"
proof -
  define a where "a = cp div 64"
  define c where "c = cp mod 64"
  have cp: "cp = a * 64 + c" unfolding a_def c_def by simp
  have c: "c < 64" unfolding c_def by simp
  have a: "2 \<le> a" "a < 32" using cp c assms by linarith+
  have u: "unat (of_nat (192 + a) :: byte) = 192 + a"
    by (rule unat_byte_of_nat) (use a in linarith)
  have "(32 * 6 + a) mod 32 = a" using a(2) by (rule lead_mod)
  then have md: "(192 + a) mod 32 = a" by simp
  have lead: "utf8_lead (192 + a) = Some (1, a, 128, 191)"
    using a by (simp add: utf8_lead_def md)
  have "utf8_decode 0 0 128 191 (of_nat (192 + a) # of_nat (128 + c) # bs)
          = utf8_decode a 1 128 191 (of_nat (128 + c) # bs)"
  proof (rule decode_lead_byte)
    show "128 \<le> unat (of_nat (192 + a) :: byte)" unfolding u by simp
    show "utf8_lead (unat (of_nat (192 + a) :: byte)) = Some (1, a, 128, 191)"
      unfolding u by (rule lead)
  qed
  also have "\<dots> = (a * 64 + c) # utf8_decode 0 0 128 191 bs"
    by (rule decode_last_byte) (use c in simp_all)
  finally show ?thesis unfolding cp[symmetric] unfolding a_def c_def .
qed


lemma decode_three_bytes:
  assumes "2048 \<le> cp" "cp < 65536" "cp < 55296 \<or> 57343 < cp"
  shows "utf8_decode 0 0 128 191
           (of_nat (224 + cp div 4096) # of_nat (128 + (cp div 64) mod 64)
              # of_nat (128 + cp mod 64) # bs)
           = cp # utf8_decode 0 0 128 191 bs"
proof -
  define q where "q = cp div 64"
  define c where "c = cp mod 64"
  define a where "a = q div 64"
  define m where "m = q mod 64"
  have "cp div (64 * 64) = cp div 64 div 64" by (rule div_mult2_eq)
  then have top: "cp div 4096 = a" unfolding a_def q_def by simp
  have cp: "cp = q * 64 + c" unfolding q_def c_def by simp
  have q: "q = a * 64 + m" unfolding a_def m_def by simp
  have c: "c < 64" unfolding c_def by simp
  have m: "m < 64" unfolding m_def by simp
  have a: "a < 16" using cp q c m assms by linarith
  have lo: "a = 0 \<Longrightarrow> 32 \<le> m" using cp q c m assms by linarith
  have hi: "a = 13 \<Longrightarrow> m < 32" using cp q c m assms by linarith
  have u: "unat (of_nat (224 + a) :: byte) = 224 + a"
    by (rule unat_byte_of_nat) (use a in linarith)
  have "(16 * 14 + a) mod 16 = a" using a by (rule lead_mod)
  then have md: "(224 + a) mod 16 = a" by simp
  have lead: "utf8_lead (224 + a)
                = Some (2, a, if a = 0 then 160 else 128, if a = 13 then 159 else 191)"
    using a by (simp add: utf8_lead_def md)
  have "utf8_decode 0 0 128 191
          (of_nat (224 + a) # of_nat (128 + m) # of_nat (128 + c) # bs)
          = utf8_decode a 2 (if a = 0 then 160 else 128) (if a = 13 then 159 else 191)
              (of_nat (128 + m) # of_nat (128 + c) # bs)"
  proof (rule decode_lead_byte)
    show "128 \<le> unat (of_nat (224 + a) :: byte)" unfolding u by simp
    show "utf8_lead (unat (of_nat (224 + a) :: byte))
            = Some (2, a, if a = 0 then 160 else 128, if a = 13 then 159 else 191)"
      unfolding u by (rule lead)
  qed
  also have "\<dots> = utf8_decode (a * 64 + m) (2 - 1) 128 191 (of_nat (128 + c) # bs)"
    by (rule decode_middle_byte) (use m lo hi in auto)
  also have "\<dots> = utf8_decode (a * 64 + m) 1 128 191 (of_nat (128 + c) # bs)" by simp
  also have "\<dots> = ((a * 64 + m) * 64 + c) # utf8_decode 0 0 128 191 bs"
    by (rule decode_last_byte) (use c in simp_all)
  also have "(a * 64 + m) * 64 + c = cp" using cp q by simp
  finally show ?thesis
    unfolding top[symmetric] m_def c_def q_def .
qed

lemma decode_four_bytes:
  assumes "65536 \<le> cp" "cp < 1114112"
  shows "utf8_decode 0 0 128 191
           (of_nat (240 + cp div 262144) # of_nat (128 + (cp div 4096) mod 64)
              # of_nat (128 + (cp div 64) mod 64) # of_nat (128 + cp mod 64) # bs)
           = cp # utf8_decode 0 0 128 191 bs"
proof -
  define q where "q = cp div 64"
  define c where "c = cp mod 64"
  define r where "r = q div 64"
  define m2 where "m2 = q mod 64"
  define a where "a = r div 64"
  define m1 where "m1 = r mod 64"
  have "cp div (64 * 64) = cp div 64 div 64" by (rule div_mult2_eq)
  then have mid: "cp div 4096 = r" unfolding r_def q_def by simp
  have "cp div (4096 * 64) = cp div 4096 div 64" by (rule div_mult2_eq)
  then have top: "cp div 262144 = a" unfolding a_def mid by simp
  have cp: "cp = q * 64 + c" unfolding q_def c_def by simp
  have q: "q = r * 64 + m2" unfolding r_def m2_def by simp
  have r: "r = a * 64 + m1" unfolding a_def m1_def by simp
  have c: "c < 64" unfolding c_def by simp
  have m2: "m2 < 64" unfolding m2_def by simp
  have m1: "m1 < 64" unfolding m1_def by simp
  have a: "a < 5" using cp q r c m1 m2 assms by linarith
  have lo: "a = 0 \<Longrightarrow> 16 \<le> m1" using cp q r c m1 m2 assms by linarith
  have hi: "a = 4 \<Longrightarrow> m1 < 16" using cp q r c m1 m2 assms by linarith
  have u: "unat (of_nat (240 + a) :: byte) = 240 + a"
    by (rule unat_byte_of_nat) (use a in linarith)
  have "(8 * 30 + a) mod 8 = a" by (rule lead_mod) (use a in linarith)
  then have md: "(240 + a) mod 8 = a" by simp
  have lead: "utf8_lead (240 + a)
                = Some (3, a, if a = 0 then 144 else 128, if a = 4 then 143 else 191)"
    using a by (simp add: utf8_lead_def md)
  have "utf8_decode 0 0 128 191
          (of_nat (240 + a) # of_nat (128 + m1) # of_nat (128 + m2) # of_nat (128 + c) # bs)
          = utf8_decode a 3 (if a = 0 then 144 else 128) (if a = 4 then 143 else 191)
              (of_nat (128 + m1) # of_nat (128 + m2) # of_nat (128 + c) # bs)"
  proof (rule decode_lead_byte)
    show "128 \<le> unat (of_nat (240 + a) :: byte)" unfolding u by simp
    show "utf8_lead (unat (of_nat (240 + a) :: byte))
            = Some (3, a, if a = 0 then 144 else 128, if a = 4 then 143 else 191)"
      unfolding u by (rule lead)
  qed
  also have "\<dots> = utf8_decode (a * 64 + m1) (3 - 1) 128 191
                      (of_nat (128 + m2) # of_nat (128 + c) # bs)"
    by (rule decode_middle_byte) (use m1 lo hi in auto)
  also have "\<dots> = utf8_decode (a * 64 + m1) 2 128 191 (of_nat (128 + m2) # of_nat (128 + c) # bs)"
    by simp
  also have "\<dots> = utf8_decode ((a * 64 + m1) * 64 + m2) (2 - 1) 128 191 (of_nat (128 + c) # bs)"
    by (rule decode_middle_byte) (use m2 in simp_all)
  also have "\<dots> = utf8_decode ((a * 64 + m1) * 64 + m2) 1 128 191 (of_nat (128 + c) # bs)"
    by simp
  also have "\<dots> = (((a * 64 + m1) * 64 + m2) * 64 + c) # utf8_decode 0 0 128 191 bs"
    by (rule decode_last_byte) (use c in simp_all)
  also have "((a * 64 + m1) * 64 + m2) * 64 + c = cp" using cp q r by simp
  finally show ?thesis
    unfolding top[symmetric] m1_def mid[symmetric] m2_def c_def q_def .
qed


lemma utf8_decode_scalar:
  assumes "cp < 1114112" "cp < 55296 \<or> 57343 < cp"
  shows "utf8_decode 0 0 128 191 (utf8_bytes cp @ bs) = cp # utf8_decode 0 0 128 191 bs"
proof -
  consider "cp < 128" | "128 \<le> cp" "cp < 2048" | "2048 \<le> cp" "cp < 65536"
    | "65536 \<le> cp"
    by linarith
  then show ?thesis
  proof cases
    case 1
    then have u: "unat (of_nat cp :: byte) = cp" by (intro unat_byte_of_nat) simp
    have "utf8_decode 0 0 128 191 (of_nat cp # bs)
            = unat (of_nat cp :: byte) # utf8_decode 0 0 128 191 bs"
      by (rule decode_ascii_byte) (simp only: u 1)
    then show ?thesis using 1 by (simp only: utf8_bytes_def u if_True append.simps)
  next
    case 2
    then have b: "utf8_bytes cp = [of_nat (192 + cp div 64), of_nat (128 + cp mod 64)]"
      by (simp add: utf8_bytes_def del: of_nat_add)
    show ?thesis unfolding b append.simps by (rule decode_two_bytes[OF 2])
  next
    case 3
    then have b: "utf8_bytes cp
                    = [of_nat (224 + cp div 4096), of_nat (128 + (cp div 64) mod 64),
                       of_nat (128 + cp mod 64)]"
      by (simp add: utf8_bytes_def del: of_nat_add)
    show ?thesis unfolding b append.simps by (rule decode_three_bytes[OF 3 assms(2)])
  next
    case 4
    then have b: "utf8_bytes cp
                    = [of_nat (240 + cp div 262144), of_nat (128 + (cp div 4096) mod 64),
                       of_nat (128 + (cp div 64) mod 64), of_nat (128 + cp mod 64)]"
      by (simp add: utf8_bytes_def del: of_nat_add)
    show ?thesis unfolding b append.simps by (rule decode_four_bytes[OF 4 assms(1)])
  qed
qed

lemma unit_below: "unat (u :: 16 word) < 65536"
  using unsigned_less[of u, where 'a = nat] by simp

lemma not_surrogate_scalar:
  assumes "\<not> is_high_surrogate u" "\<not> is_low_surrogate u"
  shows "unat u < 1114112 \<and> (unat u < 55296 \<or> 57343 < unat u)"
  using assms unit_below[of u] by (simp add: is_high_surrogate_def is_low_surrogate_def) linarith

lemma pair_scalar:
  assumes "is_high_surrogate u" "is_low_surrogate l"
  shows "65536 \<le> 65536 + (unat u - 55296) * 1024 + (unat l - 56320) \<and>
         65536 + (unat u - 55296) * 1024 + (unat l - 56320) < 1114112"
proof -
  from assms have "55296 \<le> unat u" "unat u \<le> 56319" "56320 \<le> unat l" "unat l \<le> 57343"
    by (simp_all add: is_high_surrogate_def is_low_surrogate_def)
  then show ?thesis by linarith
qed

lemma decode_encode_text:
  "well_formed_utf16 h \<Longrightarrow> utf8_decode 0 0 128 191 (encode_text h) = code_points h"
proof (induction h rule: encode_text.induct)
  case 1
  then show ?case by simp
next
  case (2 u)
  then have ns: "\<not> is_high_surrogate u" "\<not> is_low_surrogate u" by simp_all
  have "utf8_decode 0 0 128 191 (utf8_bytes (unat u) @ []) = unat u # utf8_decode 0 0 128 191 []"
    using not_surrogate_scalar[OF ns] by (intro utf8_decode_scalar) simp_all
  then show ?case using ns by simp
next
  case (3 u l us)
  show ?case
  proof (cases "is_high_surrogate u")
    case True
    with 3(4) have low: "is_low_surrogate l" and wf: "well_formed_utf16 us" by simp_all
    have ih: "utf8_decode 0 0 128 191 (encode_text us) = code_points us"
      using 3(1) True low wf by simp
    let ?cp = "65536 + (unat u - 55296) * 1024 + (unat l - 56320)"
    have "utf8_decode 0 0 128 191 (utf8_bytes ?cp @ encode_text us)
            = ?cp # utf8_decode 0 0 128 191 (encode_text us)"
      using pair_scalar[OF True low] by (intro utf8_decode_scalar) linarith+
    then show ?thesis using True low ih by simp
  next
    case False
    with 3(4) have nl: "\<not> is_low_surrogate u" and wf: "well_formed_utf16 (l # us)" by simp_all
    have ih: "utf8_decode 0 0 128 191 (encode_text (l # us)) = code_points (l # us)"
      using 3(3) False nl wf by simp
    have "utf8_decode 0 0 128 191 (utf8_bytes (unat u) @ encode_text (l # us))
            = unat u # utf8_decode 0 0 128 191 (encode_text (l # us))"
      using not_surrogate_scalar[OF False nl] by (intro utf8_decode_scalar) simp_all
    then show ?thesis using False nl ih by simp
  qed
qed


lemma utf16_units_unit: "utf16_units (unat (u :: 16 word)) = [u]"
  using unit_below[of u] by (simp add: utf16_units_def)

lemma utf16_units_pair:
  assumes "is_high_surrogate u" "is_low_surrogate l"
  shows "utf16_units (65536 + (unat u - 55296) * 1024 + (unat l - 56320)) = [u, l]"
proof -
  define x where "x = unat u - 55296"
  define y where "y = unat l - 56320"
  from assms have b: "55296 \<le> unat u" "unat u \<le> 56319" "56320 \<le> unat l" "unat l \<le> 57343"
    by (simp_all add: is_high_surrogate_def is_low_surrogate_def)
  have y: "y < 1024" unfolding y_def using b by linarith
  have d: "(x * 1024 + y) div 1024 = x" using y by simp
  have m: "(x * 1024 + y) mod 1024 = y" using y by simp
  have hi: "55296 + x = unat u" unfolding x_def using b by linarith
  have lo: "56320 + y = unat l" unfolding y_def using b by linarith
  have "utf16_units (65536 + x * 1024 + y)
          = [of_nat (55296 + (x * 1024 + y) div 1024), of_nat (56320 + (x * 1024 + y) mod 1024)]"
    by (simp add: utf16_units_def del: of_nat_add)
  then have "utf16_units (65536 + x * 1024 + y) = [u, l]"
    unfolding d m hi lo by simp
  then show ?thesis unfolding x_def y_def .
qed

lemma units_of_code_points:
  "well_formed_utf16 h \<Longrightarrow> concat (map utf16_units (code_points h)) = h"
proof (induction h rule: code_points.induct)
  case 1
  then show ?case by simp
next
  case (2 u)
  then show ?case by (simp add: utf16_units_unit)
next
  case (3 u l us)
  show ?case
  proof (cases "is_high_surrogate u")
    case True
    with 3(3) have low: "is_low_surrogate l" and wf: "well_formed_utf16 us" by simp_all
    have ih: "concat (map utf16_units (code_points us)) = us" using 3(1) True low wf by simp
    show ?thesis using True low ih by (simp add: utf16_units_pair del: utf16_units_def)
  next
    case False
    with 3(3) have wf: "well_formed_utf16 (l # us)" by simp
    have ih: "concat (map utf16_units (code_points (l # us))) = l # us"
      using 3(2) False wf by simp
    show ?thesis using False ih by (simp add: utf16_units_unit)
  qed
qed

lemma unit_is_bom: "unat (u :: 16 word) = 65279 \<Longrightarrow> u = 0xFEFF"
proof -
  assume "unat u = 65279"
  then have "of_nat (unat u) = (of_nat 65279 :: 16 word)" by simp
  then show ?thesis by (simp only: of_nat_unat) simp
qed

lemma strip_bom_code_points:
  assumes "take 1 h \<noteq> [0xFEFF]"
  shows "strip_bom (code_points h) = code_points h"
proof (cases h rule: code_points.cases)
  case 1
  then show ?thesis by (simp add: strip_bom_def)
next
  case (2 u)
  with assms have "u \<noteq> 0xFEFF" by simp
  then have "unat u \<noteq> 65279" using unit_is_bom[of u] by blast
  then show ?thesis using 2 by (simp add: strip_bom_def)
next
  case (3 u l us)
  with assms have "u \<noteq> 0xFEFF" by simp
  then have "unat u \<noteq> 65279" using unit_is_bom[of u] by blast
  then show ?thesis using 3 by (simp add: strip_bom_def)
qed

lemma text_roundtrip:
  assumes "well_formed_utf16 h" "take 1 h \<noteq> [0xFEFF]"
  shows "decode_text (encode_text h) = h"
  unfolding decode_text_def decode_encode_text[OF assms(1)] strip_bom_code_points[OF assms(2)]
  by (rule units_of_code_points[OF assms(1)])

lemma bom_is_dropped: "decode_text (encode_text [0xFEFF, 0x61]) = [0x61]"
  by (simp add: is_high_surrogate_def is_low_surrogate_def utf8_bytes_def decode_text_def
        utf8_lead_def strip_bom_def utf16_units_def Let_def)

subsection \<open>Payloads on the wire\<close>

lemma connect_bytes:
  "payload_serialize (ConnectPayload st p h) =
     word_of_int (st mod 256) # word_of_int ((p mod 65536) mod 256)
       # word_of_int ((p mod 65536) div 256) # encode_text h"
  by (simp add: WispBuffer_alloc_def numeral_eq_Suc setUint8_def setUint16_def Let_def concat_buf_def
           del: word_of_int_eq_iff)

lemma u16_value:
  assumes "0 \<le> p" "p < 65536"
  shows "uint (word_of_int (p mod 256) :: byte) + 256 * uint (word_of_int (p div 256) :: byte) = p"
  unfolding uint_byte uint_top_byte_u16[OF assms] by (rule u16_recompose)

lemma connect_parse_serialize:
  assumes "0 \<le> st" "st < 256" "0 \<le> p" "p < 65536"
  shows "ConnectPayload_parse (payload_serialize (ConnectPayload st p h))
           = Inr (ConnectPayload st p (decode_text (encode_text h)))"
proof -
  have pm: "p mod 65536 = p" using assms(3,4) by simp
  show ?thesis
    unfolding connect_bytes pm ConnectPayload_parse_def getUint8_at0 getUint16_at1 slice_3
      uint_byte_id[OF assms(1,2)] u16_value[OF assms(3,4)] bind_err_def sum.case ..
qed

lemma connect_roundtrip:
  assumes "well_formed_payload (ConnectPayload st p h)" "\<not> leading_bom (ConnectPayload st p h)"
  shows "ConnectPayload_parse (payload_serialize (ConnectPayload st p h)) = Inr (ConnectPayload st p h)"
proof -
  from assms have st: "0 \<le> st" "st < 256" and p: "0 \<le> p" "p < 65536"
    and wf: "well_formed_utf16 h" and nb: "take 1 h \<noteq> [0xFEFF]" by simp_all
  show ?thesis
    unfolding connect_parse_serialize[OF st p] text_roundtrip[OF wf nb] ..
qed

lemma continue_bytes: "payload_serialize (ContinuePayload n) = u32_bytes (n mod 4294967296)"
  by (simp add: WispBuffer_alloc_def numeral_eq_Suc setUint32_def Let_def u32_bytes_def)

lemma continue_roundtrip:
  assumes "well_formed_payload (ContinuePayload n)"
  shows "ContinuePayload_parse (payload_serialize (ContinuePayload n)) = Inr (ContinuePayload n)"
proof -
  from assms have n: "0 \<le> n" "n < 4294967296" by simp_all
  have nm: "n mod 4294967296 = n" using n by simp
  have "getUint32 (u32_bytes n) 0 = Inr n" using getUint32_u32_bytes0[OF n, of "[]"] by simp
  then show ?thesis
    unfolding continue_bytes nm ContinuePayload_parse_def by (simp add: bind_err_def)
qed

lemma close_bytes: "payload_serialize (ClosePayload r) = [word_of_int (r mod 256)]"
  by (simp add: WispBuffer_alloc_def setUint8_def)

lemma close_roundtrip:
  assumes "well_formed_payload (ClosePayload r)"
  shows "ClosePayload_parse (payload_serialize (ClosePayload r)) = Inr (ClosePayload r)"
proof -
  from assms have r: "0 \<le> r" "r < 256" by simp_all
  show ?thesis
    unfolding close_bytes ClosePayload_parse_def getUint8_at0 uint_byte_id[OF r] bind_err_def sum.case ..
qed

lemma info_bytes:
  "payload_serialize (InfoPayload ma mi exts) = word_of_int (ma mod 256) # word_of_int (mi mod 256) # exts"
  by (simp add: WispBuffer_alloc_def numeral_eq_Suc setUint8_def concat_buf_def)

lemma info_roundtrip:
  assumes "well_formed_payload (InfoPayload ma mi exts)"
  shows "InfoPayload_parse (payload_serialize (InfoPayload ma mi exts)) = Inr (InfoPayload ma mi exts)"
proof -
  from assms have a: "0 \<le> ma" "ma < 256" and i: "0 \<le> mi" "mi < 256" by simp_all
  show ?thesis
    unfolding info_bytes InfoPayload_parse_def getUint8_at0 getUint8_at1 slice_2
      uint_byte_id[OF a] uint_byte_id[OF i] bind_err_def sum.case ..
qed

lemma packet_of_fields:
  "payload (packet_of sid pl) = Some pl" "ptype (packet_of sid pl) = payload_type pl"
  "stream_id (packet_of sid pl) = sid" "payload_bytes (packet_of sid pl) = Some (payload_serialize pl)"
  by (simp_all add: packet_of_def WispPacket_new_def)

lemma serialize_packet_of:
  "serialize (packet_of sid pl) =
     Inr (word_of_int (payload_type pl mod 256) # u32_bytes (sid mod 4294967296) @ payload_serialize pl)"
  unfolding serialize_def packet_of_fields option.case header_bytes concat_buf_def append.simps ..

lemma payload_type_range: "0 \<le> payload_type pl \<and> payload_type pl < 256"
  by (cases pl) simp_all

lemma parse_header:
  assumes "0 \<le> t" "t < 256" "0 \<le> sid" "sid < 4294967296"
  shows "parse (word_of_int (t mod 256) # u32_bytes sid @ pb) = Inr (WispPacket_new t sid None (Some pb))"
proof -
  have s5: "slice (word_of_int (t mod 256) # u32_bytes sid @ pb) 5 None = pb"
    unfolding u32_bytes_def append.simps slice_5 ..
  show ?thesis
    unfolding parse_def getUint8_at0 getUint32_u32_bytes[OF assms(3,4)] uint_byte_id[OF assms(1,2)]
      s5 bind_err_def sum.case ..
qed

lemma payload_class_roundtrip:
  assumes "well_formed_payload pl" "\<not> leading_bom pl"
  shows "\<exists>f m. packet_classes (payload_type pl) = Some (f, m) \<and> m \<le> length (payload_serialize pl)
           \<and> f (payload_serialize pl) = Inr pl"
proof (cases pl)
  case (ConnectPayload st p h)
  then show ?thesis using assms connect_roundtrip[of st p h]
    by (simp add: packet_classes_def connect_bytes
             del: payload_serialize.simps well_formed_payload.simps leading_bom.simps)
next
  case (DataPayload d)
  then show ?thesis by (simp add: packet_classes_def DataPayload_parse_def)
next
  case (ContinuePayload n)
  then show ?thesis using assms continue_roundtrip[of n]
    by (simp add: packet_classes_def continue_bytes length_u32_bytes
             del: payload_serialize.simps well_formed_payload.simps)
next
  case (ClosePayload r)
  then show ?thesis using assms close_roundtrip[of r]
    by (simp add: packet_classes_def close_bytes del: payload_serialize.simps well_formed_payload.simps)
next
  case (InfoPayload ma mi exts)
  then show ?thesis using assms info_roundtrip[of ma mi exts]
    by (simp add: packet_classes_def info_bytes del: payload_serialize.simps well_formed_payload.simps)
qed

subsection \<open>Serializing and parsing a packet\<close>

text \<open>
  Claim C6, as the code has it. For a packet of any of the five types that the engine
  builds from a stream id below \<open>2^32\<close> and a well-formed payload (every close reason and
  every stream kind from 0 to 255 included) whose hostname, for a CONNECT, does not begin
  with the byte order mark U+FEFF, serializing it and parsing the bytes with \<open>parse_all\<close>
  gives the packet back: same type, same stream id, same payload, same payload bytes.
\<close>

theorem packet_roundtrip:
  assumes "0 \<le> sid" "sid < 4294967296" "well_formed_payload pl" "\<not> leading_bom pl"
  shows "bind_err (serialize (packet_of sid pl)) parse_all = Inr (packet_of sid pl)"
proof -
  obtain f m where cls: "packet_classes (payload_type pl) = Some (f, m)"
    and len: "m \<le> length (payload_serialize pl)"
    and rt: "f (payload_serialize pl) = Inr pl"
    using payload_class_roundtrip[OF assms(3,4)] by blast
  have sm: "sid mod 4294967296 = sid" using assms(1,2) by simp
  have t: "0 \<le> payload_type pl" "payload_type pl < 256" using payload_type_range[of pl] by simp_all
  have big: "\<not> length (word_of_int (payload_type pl mod 256) # u32_bytes sid @ payload_serialize pl) < min_size"
    by (simp add: min_size_def length_u32_bytes)
  have "parse_all (word_of_int (payload_type pl mod 256) # u32_bytes sid @ payload_serialize pl)
          = Inr (packet_of sid pl)"
    unfolding parse_all_def parse_header[OF t assms(1,2)] if_not_P[OF big]
    using cls len rt
    by (simp add: bind_err_def WispPacket_new_def packet_of_def)
  then show ?thesis
    unfolding serialize_packet_of sm by (simp add: bind_err_def)
qed

text \<open>A CONNECT to port 443 of a hostname with letters of one, two, three and four bytes
  comes back as it was sent.\<close>

theorem packet_roundtrip_witness:
  "bind_err (serialize (packet_of 7 (ConnectPayload 1 443 unicode_host))) parse_all
     = Inr (packet_of 7 (ConnectPayload 1 443 unicode_host))"
proof -
  have wf: "well_formed_payload (ConnectPayload 1 443 unicode_host)"
    by (simp add: unicode_host_def is_high_surrogate_def is_low_surrogate_def)
  have nb: "\<not> leading_bom (ConnectPayload 1 443 unicode_host)"
    by (simp add: unicode_host_def)
  show ?thesis by (rule packet_roundtrip[OF _ _ wf nb]) simp_all
qed

text \<open>
  Claim C6 as stated fails. The hostname U+FEFF "a" is text without a lone surrogate and
  without NUL, and the CONNECT payload that carries it to port 80 is well-formed; its
  packet is serialized with the three bytes EF BB BF of the mark in front, and the parser
  gives back a packet whose hostname is "a": \<open>TextDecoder\<close> drops a leading mark.
\<close>

theorem leading_bom_lost_counterexample:
  "well_formed_payload (ConnectPayload 1 80 [0xFEFF, 0x61]) \<and>
   0 \<notin> set [0xFEFF, 0x61 :: 16 word] \<and>
   bind_err (serialize (packet_of 1 (ConnectPayload 1 80 [0xFEFF, 0x61]))) parse_all
     = Inr ((packet_of 1 (ConnectPayload 1 80 [0xFEFF, 0x61]))
              \<lparr>payload := Some (ConnectPayload 1 80 [0x61])\<rparr>) \<and>
   bind_err (serialize (packet_of 1 (ConnectPayload 1 80 [0xFEFF, 0x61]))) parse_all
     \<noteq> Inr (packet_of 1 (ConnectPayload 1 80 [0xFEFF, 0x61]))"
proof -
  let ?pl = "ConnectPayload 1 80 [0xFEFF, 0x61]"
  have wf: "well_formed_payload ?pl"
    by (simp add: is_high_surrogate_def is_low_surrogate_def)
  have "ConnectPayload_parse (payload_serialize ?pl)
          = Inr (ConnectPayload 1 80 (decode_text (encode_text [0xFEFF, 0x61])))"
    by (rule connect_parse_serialize) simp_all
  then have rt: "ConnectPayload_parse (payload_serialize ?pl) = Inr (ConnectPayload 1 80 [0x61])"
    by (simp only: bom_is_dropped)
  have len: "\<not> length (payload_serialize ?pl) < 3"
    unfolding connect_bytes by simp
  have big: "\<not> length (word_of_int (payload_type ?pl mod 256) # u32_bytes 1 @ payload_serialize ?pl) < min_size"
    by (simp add: min_size_def length_u32_bytes del: payload_serialize.simps)
  have hd: "parse (word_of_int (payload_type ?pl mod 256) # u32_bytes 1 @ payload_serialize ?pl)
              = Inr (WispPacket_new (payload_type ?pl) 1 None (Some (payload_serialize ?pl)))"
    by (rule parse_header) simp_all
  have "parse_all (word_of_int (payload_type ?pl mod 256) # u32_bytes 1 @ payload_serialize ?pl)
          = Inr ((packet_of 1 ?pl)\<lparr>payload := Some (ConnectPayload 1 80 [0x61])\<rparr>)"
    unfolding parse_all_def hd if_not_P[OF big]
    using len rt
    by (simp add: bind_err_def WispPacket_new_def packet_of_def packet_classes_def
             del: payload_serialize.simps)
  then have res: "bind_err (serialize (packet_of 1 ?pl)) parse_all
                    = Inr ((packet_of 1 ?pl)\<lparr>payload := Some (ConnectPayload 1 80 [0x61])\<rparr>)"
    unfolding serialize_packet_of by (simp add: bind_err_def del: payload_serialize.simps)
  have "payload ((packet_of 1 ?pl)\<lparr>payload := Some (ConnectPayload 1 80 [0x61])\<rparr>)
          \<noteq> payload (packet_of 1 ?pl)"
    by (simp add: packet_of_fields del: payload_serialize.simps)
  then have ne: "(packet_of 1 ?pl)\<lparr>payload := Some (ConnectPayload 1 80 [0x61])\<rparr> \<noteq> packet_of 1 ?pl"
    by metis
  show ?thesis
    unfolding res using wf ne by simp
qed


subsection \<open>Routing\<close>

lemma bind_err_Inr: "bind_err r f = Inr v \<Longrightarrow> \<exists>x. r = Inr x \<and> f x = Inr v"
  by (cases r) (simp_all add: bind_err_def)

lemma parse_all_payload:
  assumes "parse_all buffer = Inr packet"
  shows "\<exists>pl. payload packet = Some pl"
  using assms
  by (auto simp: parse_all_def split: if_splits option.splits prod.splits dest!: bind_err_Inr)

text \<open>
  Claim C8. When the buffer parses to a DATA packet whose stream id is not in the stream
  table, \<open>route_packet\<close> returns normally and the connection it leaves differs from the one
  it found by one logged warning only: nothing is sent on the carrier, the stream table
  and every stream in it are the same.
\<close>

theorem data_for_unknown_stream_dropped:
  assumes "parse_all buffer = Inr packet" "ptype packet = 2"
    and "map_of (streams this) (stream_id packet) = None"
  shows "route_packet ev this buffer =
           Inr (this\<lparr>logged := logged this @
                  [(WARN, ''received a DATA packet for a stream which doesn't exist'')]\<rparr>)"
proof -
  obtain pl where pl: "payload packet = Some pl"
    using parse_all_payload[OF assms(1)] by blast
  show ?thesis
    by (simp add: route_packet_def assms pl logging_def)
qed

theorem data_for_unknown_stream_dropped_witness:
  "route_packet example_env example_conn [2, 7, 0, 0, 0, 0xAA] =
     Inr (example_conn\<lparr>logged := logged example_conn @
            [(WARN, ''received a DATA packet for a stream which doesn't exist'')]\<rparr>)"
proof -
  have p: "parse_all [2, 7, 0, 0, 0, 0xAA] =
             Inr \<lparr>ptype = 2, stream_id = 7, payload_bytes = Some [0xAA],
                  payload = Some (DataPayload [0xAA])\<rparr>"
    by (simp add: parse_all_def parse_def min_size_def bind_err_def getUint8_def getUint32_def
          slice_def clamp_index_def WispPacket_new_def packet_classes_def DataPayload_parse_def)
  have s: "map_of (streams example_conn) 7 = None"
    by (simp add: example_conn_def ServerConnection_new_def)
  show ?thesis
    using data_for_unknown_stream_dropped[OF p, of example_conn example_env] s by simp
qed

subsection \<open>Stream kinds other than TCP and UDP\<close>

lemma is_ip_blocked_kind_flags:
  "is_ip_blocked (ev\<lparr>opts := (opts ev)\<lparr>allow_tcp_streams := tcp, allow_udp_streams := udp\<rparr>\<rparr>) ip
     = is_ip_blocked ev ip"
  by (cases ip) (simp_all add: is_ip_blocked_def)

lemma is_stream_allowed_other_kind:
  assumes "t \<noteq> 1" "t \<noteq> 2"
  shows "is_stream_allowed (ev\<lparr>opts := (opts ev)\<lparr>allow_tcp_streams := tcp, allow_udp_streams := udp\<rparr>\<rparr>)
           connection t host prt
         = is_stream_allowed ev connection t host prt"
  unfolding is_stream_allowed_def is_ip_blocked_kind_flags
  using assms by (simp add: stream_types_TCP_def stream_types_UDP_def cong: option.case_cong if_cong)

lemma decode_example_host: "decode_text [0x61, 0x2E, 0x62] = example_host"
  by (simp add: decode_text_def example_host_def Let_def strip_bom_def utf16_units_def)

text \<open>
  Claim C10. When a CONNECT packet carries a stream kind that is neither 1 (TCP) nor 2
  (UDP), \<open>route_packet\<close> stores under the packet's id a fresh stream whose socket is a UDP
  socket (on Node, where the socket constructors do not raise), and the result of
  \<open>is_stream_allowed\<close> for that kind is the same whatever \<open>allow_tcp_streams\<close> and
  \<open>allow_udp_streams\<close> are, both false included: the two kind gates deny the kinds 1 and 2
  only.
\<close>

theorem other_kind_gets_udp_socket_and_passes_kind_gate:
  assumes "parse_all buffer = Inr packet" "ptype packet = 1" "payload packet = Some pl"
    and "stream_type pl \<noteq> 1" "stream_type pl \<noteq> 2" "is_node ev"
  shows "(\<exists>this1. route_packet ev this buffer = Inr this1 \<and>
            map_of (streams this1) (stream_id packet) =
              Some (ServerStream_new (stream_id packet)
                      (Socket_new UDPSocket (trim (hostname pl)) (port pl)))) \<and>
         is_stream_allowed (ev\<lparr>opts := (opts ev)\<lparr>allow_tcp_streams := False, allow_udp_streams := False\<rparr>\<rparr>)
           connection (stream_type pl) host prt =
         is_stream_allowed (ev\<lparr>opts := (opts ev)\<lparr>allow_tcp_streams := True, allow_udp_streams := True\<rparr>\<rparr>)
           connection (stream_type pl) host prt"
proof
  show "\<exists>this1. route_packet ev this buffer = Inr this1 \<and>
           map_of (streams this1) (stream_id packet) =
             Some (ServerStream_new (stream_id packet)
                     (Socket_new UDPSocket (trim (hostname pl)) (port pl)))"
    using assms
    by (simp add: route_packet_def create_stream_def stream_types_TCP_def logging_def
          update_Some_unfold)
next
  show "is_stream_allowed (ev\<lparr>opts := (opts ev)\<lparr>allow_tcp_streams := False, allow_udp_streams := False\<rparr>\<rparr>)
           connection (stream_type pl) host prt =
         is_stream_allowed (ev\<lparr>opts := (opts ev)\<lparr>allow_tcp_streams := True, allow_udp_streams := True\<rparr>\<rparr>)
           connection (stream_type pl) host prt"
    unfolding is_stream_allowed_other_kind[OF assms(4,5)] ..
qed

theorem other_kind_gets_udp_socket_and_passes_kind_gate_witness:
  "(\<exists>this1. route_packet example_env example_conn [1, 9, 0, 0, 0, 3, 0x50, 0, 0x61, 0x2E, 0x62] = Inr this1 \<and>
      map_of (streams this1) 9 = Some (ServerStream_new 9 (Socket_new UDPSocket example_host 80))) \<and>
   is_stream_allowed
     (example_env\<lparr>opts := (opts example_env)\<lparr>allow_tcp_streams := False, allow_udp_streams := False\<rparr>\<rparr>)
     (Some example_conn) 3 example_host 80 =
   is_stream_allowed
     (example_env\<lparr>opts := (opts example_env)\<lparr>allow_tcp_streams := True, allow_udp_streams := True\<rparr>\<rparr>)
     (Some example_conn) 3 example_host 80"
proof -
  have p: "parse_all [1, 9, 0, 0, 0, 3, 0x50, 0, 0x61, 0x2E, 0x62] =
             Inr \<lparr>ptype = 1, stream_id = 9, payload_bytes = Some [3, 0x50, 0, 0x61, 0x2E, 0x62],
                  payload = Some (ConnectPayload 3 80 example_host)\<rparr>"
    by (simp add: parse_all_def parse_def min_size_def bind_err_def getUint8_def getUint16_def
          getUint32_def slice_def clamp_index_def WispPacket_new_def packet_classes_def
          ConnectPayload_parse_def decode_example_host)
  have t: "trim example_host = example_host"
    by (simp add: trim_def example_host_def is_js_whitespace_def Let_def)
  have n: "is_node example_env"
    by (simp add: example_env_def)
  show ?thesis
    using other_kind_gets_udp_socket_and_passes_kind_gate[OF p, of "ConnectPayload 3 80 example_host"
        example_env example_conn "Some example_conn" example_host 80] t n
    by simp
qed


subsection \<open>CLOSE from the client\<close>

lemma packet_bytes_packet_of:
  "packet_bytes (packet_of sid pl) =
     word_of_int (payload_type pl mod 256) # u32_bytes (sid mod 4294967296) @ payload_serialize pl"
  by (simp only: packet_bytes_def serialize_packet_of sum.case)

lemma ws_send_open:
  assumes "readyState this = Open" "bufferedAmount this \<noteq> None"
  shows "ws_send this (packet_of sid pl) =
           (None, this\<lparr>sent := sent this @ [packet_bytes (packet_of sid pl)]\<rparr>)"
  using assms
  by (auto simp: ws_send_def packet_bytes_def serialize_packet_of Let_def)

lemma ServerStream_close_open:
  assumes "readyState (ws conn) = Open" "bufferedAmount (ws conn) \<noteq> None" "\<not> closed this"
  shows "ServerStream_close conn this rsn =
           (None,
            conn\<lparr>ws := (ws conn)\<lparr>sent := sent (ws conn) @
               (case rsn of None \<Rightarrow> []
                | Some r \<Rightarrow> [packet_bytes (packet_of (ss_stream_id this) (ClosePayload r))])\<rparr>\<rparr>,
            this\<lparr>closed := True, clientToTarget := pt_end (clientToTarget this),
                  socket := Socket_close (socket this)\<rparr>)"
  using assms
  by (cases rsn) (simp_all add: ServerStream_close_def ws_send_open Let_def)

lemma ServerStream_close_closed:
  "closed this \<Longrightarrow> ServerStream_close conn this rsn = (None, conn, this)"
  by (simp add: ServerStream_close_def)

lemma map_of_delete_same: "map_of (AList.delete k al) k = None"
  by (simp add: delete_conv)

text \<open>
  Claim C1, as amended. When the buffer parses to a CLOSE packet for a stream that is in
  the table and not yet closed, and the carrier is open, \<open>route_packet\<close> removes the stream
  from the table and sends one CLOSE packet that carries the client's reason. Closing a
  stream sends a CLOSE packet whenever a reason is given and the stream is not yet
  closed, whoever gave the reason, and sends nothing when no reason is given or the
  stream is closed already; it marks the stream closed, ends its buffer and closes its
  socket.
\<close>

theorem client_close_tears_down_and_is_answered:
  assumes "parse_all buffer = Inr packet" "ptype packet = 4" "payload packet = Some pl"
    and "map_of (streams this) (stream_id packet) = Some stream" "\<not> closed stream"
    and "readyState (ws this) = Open" "bufferedAmount (ws this) \<noteq> None"
  shows "(\<exists>this1. route_packet ev this buffer = Inr this1 \<and>
            map_of (streams this1) (stream_id packet) = None \<and>
            sent (ws this1) = sent (ws this) @
              [packet_bytes (packet_of (ss_stream_id stream) (ClosePayload (reason pl)))]) \<and>
         ServerStream_close this stream rsn =
           (None,
            this\<lparr>ws := (ws this)\<lparr>sent := sent (ws this) @
               (case rsn of None \<Rightarrow> []
                | Some r \<Rightarrow> [packet_bytes (packet_of (ss_stream_id stream) (ClosePayload r))])\<rparr>\<rparr>,
            stream\<lparr>closed := True, clientToTarget := pt_end (clientToTarget stream),
                    socket := Socket_close (socket stream)\<rparr>) \<and>
         ServerStream_close this (stream\<lparr>closed := True\<rparr>) rsn = (None, this, stream\<lparr>closed := True\<rparr>)"
proof (intro conjI)
  have c: "ServerStream_close c stream (Some (reason pl)) =
             (None,
              c\<lparr>ws := (ws c)\<lparr>sent := sent (ws c) @
                   [packet_bytes (packet_of (ss_stream_id stream) (ClosePayload (reason pl)))]\<rparr>\<rparr>,
              stream\<lparr>closed := True, clientToTarget := pt_end (clientToTarget stream),
                      socket := Socket_close (socket stream)\<rparr>)"
    if "ws c = ws this" for c
    using ServerStream_close_open[of c stream "Some (reason pl)"] assms(5,6,7) that by simp
  show "\<exists>this1. route_packet ev this buffer = Inr this1 \<and>
            map_of (streams this1) (stream_id packet) = None \<and>
            sent (ws this1) = sent (ws this) @
              [packet_bytes (packet_of (ss_stream_id stream) (ClosePayload (reason pl)))]"
    using assms(1-4)
    by (simp add: route_packet_def close_stream_def c logging_def Let_def map_of_delete_same)
next
  show "ServerStream_close this stream rsn =
           (None,
            this\<lparr>ws := (ws this)\<lparr>sent := sent (ws this) @
               (case rsn of None \<Rightarrow> []
                | Some r \<Rightarrow> [packet_bytes (packet_of (ss_stream_id stream) (ClosePayload r))])\<rparr>\<rparr>,
            stream\<lparr>closed := True, clientToTarget := pt_end (clientToTarget stream),
                    socket := Socket_close (socket stream)\<rparr>)"
    by (rule ServerStream_close_open[OF assms(6,7,5)])
next
  show "ServerStream_close this (stream\<lparr>closed := True\<rparr>) rsn = (None, this, stream\<lparr>closed := True\<rparr>)"
    by (simp add: ServerStream_close_closed)
qed

lemma parse_all_close_example:
  "parse_all [4, 1, 0, 0, 0, 2] =
     Inr \<lparr>ptype = 4, stream_id = 1, payload_bytes = Some [2], payload = Some (ClosePayload 2)\<rparr>"
  by (simp add: parse_all_def parse_def min_size_def bind_err_def getUint8_def getUint32_def
        slice_def clamp_index_def WispPacket_new_def packet_classes_def ClosePayload_parse_def)

lemma example_stream_fields:
  "closed example_stream = False" "ss_stream_id example_stream = 1"
  "packets_sent example_stream = 0" "ws_to_tcp_running example_stream = True"
  "clientToTarget example_stream = PassThrough_new"
  "has_socket (socket example_stream) = True"
  by (simp_all add: example_stream_def ServerStream_setup_def ServerStream_new_def Socket_connect_def
        Socket_new_def)

lemma example_conn1_fields:
  "streams example_conn1 = [(1, example_stream)]" "ws example_conn1 = open_channel"
  "logged example_conn1 = []"
  by (simp_all add: example_conn1_def example_conn_def ServerConnection_new_def)

lemma open_channel_fields:
  "readyState open_channel = Open" "bufferedAmount open_channel = Some 0" "sent open_channel = []"
  "connected open_channel = True"
  by (simp_all add: open_channel_def)

lemma close_packet_example: "packet_bytes (packet_of 1 (ClosePayload 2)) = [4, 1, 0, 0, 0, 2]"
  by (simp add: packet_bytes_packet_of u32_bytes_def setUint8_def WispBuffer_alloc_def)

theorem client_close_tears_down_and_is_answered_witness:
  "(\<exists>this1. route_packet example_env example_conn1 [4, 1, 0, 0, 0, 2] = Inr this1 \<and>
      map_of (streams this1) 1 = None \<and> sent (ws this1) = [[4, 1, 0, 0, 0, 2]]) \<and>
   fst (ServerStream_close example_conn1 example_stream (Some NetworkError)) = None"
  using client_close_tears_down_and_is_answered[OF parse_all_close_example, of "ClosePayload 2"
      example_conn1 example_stream example_env "Some NetworkError"]
  by (simp add: example_stream_fields example_conn1_fields open_channel_fields close_packet_example)

text \<open>
  Claim C1 as stated fails: the server answers the client's CLOSE for stream 1 (reason 2)
  with a CLOSE packet of its own, here the only message on the carrier.
\<close>

theorem client_close_is_answered_counterexample:
  "\<exists>this1. route_packet example_env example_conn1 [4, 1, 0, 0, 0, 2] = Inr this1 \<and>
     sent (ws example_conn1) = [] \<and> sent (ws this1) = [[4, 1, 0, 0, 0, 2]]"
proof -
  have c: "ServerStream_close (logging INFO ''closing stream'' example_conn1) example_stream (Some 2) =
             (None,
              (logging INFO ''closing stream'' example_conn1)
                \<lparr>ws := open_channel\<lparr>sent := [[4, 1, 0, 0, 0, 2]]\<rparr>\<rparr>,
              example_stream\<lparr>closed := True, clientToTarget := pt_end (clientToTarget example_stream),
                              socket := Socket_close (socket example_stream)\<rparr>)"
    using ServerStream_close_open[of "logging INFO ''closing stream'' example_conn1" example_stream "Some 2"]
    by (simp add: logging_def example_conn1_fields open_channel_fields example_stream_fields
          close_packet_example)
  show ?thesis
    by (simp add: route_packet_def parse_all_close_example close_stream_def example_conn1_fields c
          open_channel_fields)
qed


subsection \<open>Extension records longer than the buffer\<close>

lemma getUint8_append0: "5 \<le> length a \<Longrightarrow> getUint8 (a @ b) 0 = Inr (uint (a ! 0))"
  by (cases a) (simp_all add: getUint8_def)

lemma getUint32_append1: "5 \<le> length a \<Longrightarrow> getUint32 (a @ b) 1 = getUint32 a 1"
  by (simp add: getUint32_def nth_append)

lemma slice_whole_prefix: "slice (a @ b) 0 (Some (int (length a))) = a"
  by (simp add: slice_def clamp_index_def)

lemma slice_drop_prefix: "slice (a @ b) (int (length a)) None = b"
  by (simp add: slice_def clamp_index_def)

lemma slice_clamped_whole: "int (length a) \<le> n \<Longrightarrow> slice a 0 (Some n) = a"
  by (simp add: slice_def clamp_index_def)

lemma slice_clamped_empty: "int (length a) \<le> n \<Longrightarrow> slice a n None = []"
  by (simp add: slice_def clamp_index_def)

lemma parse_extensions_loop_record:
  assumes "is_record rec"
  shows "parse_extensions_loop (rec @ rest) valid_extensions r parsed =
           parse_extensions_loop rest valid_extensions r (parsed @ record_result valid_extensions r rec)"
proof -
  from assms have len: "5 \<le> length rec" and hdr: "getUint32 rec 1 = Inr (int (length rec) - 5)"
    by (simp_all add: is_record_def)
  have ne: "length (rec @ rest) \<noteq> 0" using len by auto
  have g8: "getUint8 (rec @ rest) 0 = Inr (uint (rec ! 0))"
    using len by (rule getUint8_append0)
  have g32: "getUint32 (rec @ rest) 1 = Inr (int (length rec) - 5)"
    unfolding getUint32_append1[OF len] by (rule hdr)
  have five: "5 + (int (length rec) - 5) = int (length rec)" by simp
  have acc: "(case find (\<lambda>extension. ext_class_id extension = uint (rec ! 0)) valid_extensions of
                None \<Rightarrow> parsed
              | Some cls \<Rightarrow> parsed @ [BaseExtension_parse cls rec r])
             = parsed @ record_result valid_extensions r rec"
    by (simp add: record_result_def split: option.splits)
  show ?thesis
    by (subst parse_extensions_loop.simps)
       (simp only: ne if_False g8 g32 sum.case five slice_whole_prefix slice_drop_prefix acc)
qed

lemma parse_extensions_loop_records:
  assumes "\<forall>rec \<in> set recs. is_record rec"
  shows "parse_extensions_loop (concat recs @ rest) valid_extensions r parsed =
           parse_extensions_loop rest valid_extensions r
             (parsed @ concat (map (record_result valid_extensions r) recs))"
  using assms
proof (induction recs arbitrary: parsed)
  case Nil
  then show ?case by simp
next
  case (Cons rec recs)
  then have rec: "is_record rec" and rest: "\<forall>rec \<in> set recs. is_record rec" by simp_all
  show ?case
    using parse_extensions_loop_record[OF rec, of "concat recs @ rest" valid_extensions r parsed]
      Cons.IH[OF rest, of "parsed @ record_result valid_extensions r rec"]
    by simp
qed

lemma parse_extensions_loop_overlong:
  assumes "5 \<le> length over" "getUint32 over 1 = Inr ext_len" "int (length over) - 5 < ext_len"
  shows "parse_extensions_loop over valid_extensions r parsed =
           Inr (parsed @ record_result valid_extensions r over)"
proof -
  have ne: "length over \<noteq> 0" using assms(1) by auto
  have g8: "getUint8 over 0 = Inr (uint (over ! 0))"
    using getUint8_append0[OF assms(1), of "[]"] by simp
  have le: "int (length over) \<le> 5 + ext_len" using assms(3) by simp
  have fin: "parse_extensions_loop [] valid_extensions r ps = Inr ps" for ps
    by (subst parse_extensions_loop.simps) simp
  have acc: "(case find (\<lambda>extension. ext_class_id extension = uint (over ! 0)) valid_extensions of
                None \<Rightarrow> parsed
              | Some cls \<Rightarrow> parsed @ [BaseExtension_parse cls over r])
             = parsed @ record_result valid_extensions r over"
    by (simp add: record_result_def split: option.splits)
  show ?thesis
    by (subst parse_extensions_loop.simps)
       (simp only: ne if_False g8 assms(2) sum.case slice_clamped_whole[OF le]
          slice_clamped_empty[OF le] fin acc)
qed

text \<open>
  Claim C5, as amended. When an extension list is made of complete records followed by a
  record whose declared length exceeds the bytes that remain after its 5-byte header,
  \<open>parse_extensions\<close> raises nothing: it takes the bytes that remain as the record's
  payload, accepts the record when its id is in the allow-list and skips it otherwise, and
  returns it after the records before it.
\<close>

theorem overlong_extension_is_clamped:
  assumes "\<forall>rec \<in> set recs. is_record rec"
    and "5 \<le> length over" "getUint32 over 1 = Inr ext_len" "int (length over) - 5 < ext_len"
  shows "parse_extensions (concat recs @ over) valid_extensions r =
           Inr (concat (map (record_result valid_extensions r) recs) @
                record_result valid_extensions r over)"
  unfolding parse_extensions_def
  using parse_extensions_loop_records[OF assms(1), of over valid_extensions r "[]"]
    parse_extensions_loop_overlong[OF assms(2,3,4), of valid_extensions r]
  by simp

theorem overlong_extension_is_clamped_witness:
  "parse_extensions ([1, 0, 0, 0, 0] @ [4, 10, 0, 0, 0, 0x68, 0x69]) [UDPExtension, MOTDExtension] Server =
     Inr [\<lparr>ext_cls = UDPExtension, ext_id = 1, ext_payload = Some EmptyPayload\<rparr>,
          \<lparr>ext_cls = MOTDExtension, ext_id = 4, ext_payload = Some (MOTDServerPayload (Some [0x68, 0x69]))\<rparr>]"
proof -
  have r: "\<forall>rec \<in> set [[1, 0, 0, 0, 0 :: byte]]. is_record rec"
    by (simp add: is_record_def getUint32_def)
  have g: "getUint32 [4, 10, 0, 0, 0, 0x68, 0x69] 1 = Inr 10"
    by (simp add: getUint32_def)
  have d: "decode_text [0x68, 0x69] = [0x68, 0x69]"
    by (simp add: decode_text_def Let_def strip_bom_def utf16_units_def)
  show ?thesis
    using overlong_extension_is_clamped[OF r _ g, of "[UDPExtension, MOTDExtension]" Server]
    by (simp add: record_result_def BaseExtension_parse_def BaseExtension_new_def slice_def
          clamp_index_def get_string_def d)
qed

text \<open>
  Claim C5 as stated fails: a UDP record that declares 10 payload bytes with 2 bytes left
  is accepted, and no error is raised.
\<close>

theorem overlong_extension_accepted_counterexample:
  "parse_extensions [1, 10, 0, 0, 0, 0xAA, 0xBB] [UDPExtension] Client =
     Inr [\<lparr>ext_cls = UDPExtension, ext_id = 1, ext_payload = Some EmptyPayload\<rparr>]"
proof -
  have g: "getUint32 [1, 10, 0, 0, 0, 0xAA, 0xBB] 1 = Inr 10"
    by (simp add: getUint32_def)
  have "parse_extensions_loop [1, 10, 0, 0, 0, 0xAA, 0xBB] [UDPExtension] Client [] =
          Inr ([] @ record_result [UDPExtension] Client [1, 10, 0, 0, 0, 0xAA, 0xBB])"
    by (rule parse_extensions_loop_overlong[OF _ g]) simp_all
  then show ?thesis
    by (simp add: parse_extensions_def record_result_def BaseExtension_parse_def BaseExtension_new_def)
qed


subsection \<open>Quotas count the stream being created\<close>

lemma update_new_key: "map_of al k = None \<Longrightarrow> AList.update k v al = al @ [(k, v)]"
  by (induction al) (auto split: if_splits)

lemma update_has_entry: "(k, v) \<in> set (AList.update k v al)"
  by (induction al) auto

lemma filter_has_one: "x \<in> set xs \<Longrightarrow> P x \<Longrightarrow> 1 \<le> length (filter P xs)"
  by (induction xs) auto

lemma gates_then_quotas:
  assumes "(if g1 then H else if g2 then H else if g3 then H else if g4 then H
            else if g5 then H else if g6 then H else 0) = (0::int)"
    and "H \<noteq> 0"
  shows "(if g1 then H else if g2 then H else if g3 then H else if g4 then H
          else if g5 then H else if g6 then H else q) = q"
  using assms by (simp split: if_splits)

lemma is_stream_allowed_quotas:
  assumes "is_stream_allowed ev None t host prt = 0"
  shows "is_stream_allowed ev (Some conn) t host prt =
           (if stream_limit_total (opts ev) \<noteq> - 1 \<and>
               int (length (streams conn)) \<ge> stream_limit_total (opts ev) then ConnThrottled
            else if stream_limit_per_host (opts ev) \<noteq> - 1 \<and>
                    int (length (filter (\<lambda>(k, stream). sock_hostname (socket stream) = host)
                                   (streams conn)))
                      \<ge> stream_limit_per_host (opts ev) then ConnThrottled
            else 0)"
proof -
  have nz: "HostBlocked \<noteq> 0" by (simp add: HostBlocked_def)
  show ?thesis
    unfolding is_stream_allowed_def option.case
    by (rule gates_then_quotas[OF assms[unfolded is_stream_allowed_def option.case] nz])
qed

text \<open>
  Claim C9. \<open>create_stream\<close> stores the new stream before the background task evaluates
  the policy, so the quota checks count it. For a CONNECT that passes the checks before
  the quotas: with a total limit \<open>N \<ge> 1\<close> and \<open>N - 1\<close> streams in the table under other
  ids, or with a limit per host \<open>M \<ge> 1\<close> and \<open>M - 1\<close> streams to the same hostname under
  other ids, or with a limit per host of 1 whatever the table holds, \<open>is_stream_allowed\<close>
  gives ConnThrottled, and the task closes the stream with that reason: whatever stream
  object the task holds, it does to the connection what \<open>close_stream\<close> does, quietly.
\<close>

theorem quotas_count_new_stream:
  assumes "create_stream ev this sid t host prt = Inr this1"
    and "is_stream_allowed ev None t host prt = 0"
    and "(map_of (streams this) sid = None \<and> 1 \<le> stream_limit_total (opts ev) \<and>
          int (length (streams this)) = stream_limit_total (opts ev) - 1) \<or>
         (map_of (streams this) sid = None \<and> 1 \<le> stream_limit_per_host (opts ev) \<and>
          int (length (filter (\<lambda>(k, stream). sock_hostname (socket stream) = host) (streams this)))
            = stream_limit_per_host (opts ev) - 1) \<or>
         stream_limit_per_host (opts ev) = 1"
  shows "is_stream_allowed ev (Some this1) t host prt = ConnThrottled \<and>
         create_stream_task ev this1 stream stored sid t host prt =
           close_stream_holding (logging WARN ''refusing to create a stream'' this1) stream stored
             sid (Some ConnThrottled) True \<and>
         (case create_stream_task ev this1 stream stored sid t host prt of
            (err, this2, obj) \<Rightarrow> (err, this2)) =
           close_stream (logging WARN ''refusing to create a stream'' this1) sid (Some ConnThrottled) True"
proof -
  define new where
    "new = ServerStream_new sid
             (Socket_new (if t = stream_types_TCP then TCPSocket else UDPSocket) host prt)"
  have this1: "streams this1 = AList.update sid new (streams this)"
    using assms(1) by (auto simp: create_stream_def new_def Let_def split: if_splits)
  have host: "sock_hostname (socket new) = host"
    by (simp add: new_def ServerStream_new_def Socket_new_def)
  let ?same = "\<lambda>(k, stream). sock_hostname (socket stream) = host"
  have denied: "is_stream_allowed ev (Some this1) t host prt = ConnThrottled"
    using assms(3)
  proof (elim disjE conjE)
    assume fresh: "map_of (streams this) sid = None" and n: "1 \<le> stream_limit_total (opts ev)"
      and len: "int (length (streams this)) = stream_limit_total (opts ev) - 1"
    have "int (length (streams this1)) = stream_limit_total (opts ev)"
      using len by (simp add: this1 update_new_key[OF fresh])
    then show ?thesis
      using n by (simp add: is_stream_allowed_quotas[OF assms(2)])
  next
    assume fresh: "map_of (streams this) sid = None" and m: "1 \<le> stream_limit_per_host (opts ev)"
      and len: "int (length (filter ?same (streams this))) = stream_limit_per_host (opts ev) - 1"
    have "int (length (filter ?same (streams this1))) = stream_limit_per_host (opts ev)"
      using len host by (simp add: this1 update_new_key[OF fresh])
    then show ?thesis
      using m by (simp add: is_stream_allowed_quotas[OF assms(2)])
  next
    assume one: "stream_limit_per_host (opts ev) = 1"
    have "1 \<le> length (filter ?same (streams this1))"
      unfolding this1
      by (rule filter_has_one[OF update_has_entry]) (simp add: host)
    then show ?thesis
      using one by (simp add: is_stream_allowed_quotas[OF assms(2)])
  qed
  then show ?thesis
    by (simp add: create_stream_task_def close_stream_holding_def split_def Let_def ConnThrottled_def)
qed

text \<open>With a total limit of 1 and an empty table, the first CONNECT is refused: the
  server answers it with CLOSE, reason 0x49.\<close>

theorem quotas_count_new_stream_witness:
  "is_stream_allowed (example_env\<lparr>opts := default_options\<lparr>stream_limit_total := 1\<rparr>\<rparr>)
     (Some (example_conn\<lparr>streams := [(1, ServerStream_new 1 (Socket_new TCPSocket example_host 80))]\<rparr>))
     1 example_host 80 = ConnThrottled \<and>
   create_stream_task (example_env\<lparr>opts := default_options\<lparr>stream_limit_total := 1\<rparr>\<rparr>)
     (example_conn\<lparr>streams := [(1, ServerStream_new 1 (Socket_new TCPSocket example_host 80))]\<rparr>)
     (ServerStream_new 1 (Socket_new TCPSocket example_host 80)) True
     1 1 example_host 80 =
   close_stream_holding
     (logging WARN ''refusing to create a stream''
        (example_conn\<lparr>streams := [(1, ServerStream_new 1 (Socket_new TCPSocket example_host 80))]\<rparr>))
     (ServerStream_new 1 (Socket_new TCPSocket example_host 80)) True
     1 (Some ConnThrottled) True \<and>
   (case create_stream_task (example_env\<lparr>opts := default_options\<lparr>stream_limit_total := 1\<rparr>\<rparr>)
           (example_conn\<lparr>streams := [(1, ServerStream_new 1 (Socket_new TCPSocket example_host 80))]\<rparr>)
           (ServerStream_new 1 (Socket_new TCPSocket example_host 80)) True
           1 1 example_host 80 of
      (err, this2, obj) \<Rightarrow> (err, this2)) =
   close_stream
     (logging WARN ''refusing to create a stream''
        (example_conn\<lparr>streams := [(1, ServerStream_new 1 (Socket_new TCPSocket example_host 80))]\<rparr>))
     1 (Some ConnThrottled) True"
proof -
  let ?ev = "example_env\<lparr>opts := default_options\<lparr>stream_limit_total := 1\<rparr>\<rparr>"
  have c: "create_stream ?ev example_conn 1 1 example_host 80 =
             Inr (example_conn\<lparr>streams := [(1, ServerStream_new 1 (Socket_new TCPSocket example_host 80))]\<rparr>)"
    by (simp add: create_stream_def example_env_def example_conn_def ServerConnection_new_def
          stream_types_TCP_def)
  have g: "is_stream_allowed ?ev None 1 example_host 80 = 0"
    by (simp add: is_stream_allowed_def example_env_def default_options_def is_ip_blocked_def
          stream_types_TCP_def stream_types_UDP_def)
  have q: "map_of (streams example_conn) 1 = None \<and> 1 \<le> stream_limit_total (opts ?ev) \<and>
           int (length (streams example_conn)) = stream_limit_total (opts ?ev) - 1"
    by (simp add: example_conn_def ServerConnection_new_def default_options_def)
  show ?thesis
    by (rule quotas_count_new_stream[OF c g]) (simp only: q simp_thms)
qed


subsection \<open>The DNS cache and its time to live\<close>

text \<open>
  Claim C3 fails on the code by a slip of units. With the default \<open>dns_ttl\<close> of 120, a
  name resolved at time 0 and looked up again 1000 milliseconds later (one second, far
  less than 120 seconds) is not served from the cache: the entry is removed as stale,
  since the age in milliseconds is compared with \<open>dns_ttl\<close>, and a new resolution is
  performed, whose address is returned.
\<close>

theorem lookup_one_second_later_resolves_again:
  "(let (r1, cache1, performed1) =
          lookup_ip default_options True no_literal 0 0 (\<lambda>h. Inr [0x31, 0x2E, 0x32, 0x2E, 0x33, 0x2E, 0x34])
            Map.empty example_host;
        (r2, cache2, performed2) =
          lookup_ip default_options True no_literal 1000 1000 (\<lambda>h. Inr example_address)
            cache1 example_host
    in r1 = Inr (Some [0x31, 0x2E, 0x32, 0x2E, 0x33, 0x2E, 0x34]) \<and> performed1 \<and>
       cache1 example_host =
         Some \<lparr>time = 0, address = Some [0x31, 0x2E, 0x32, 0x2E, 0x33, 0x2E, 0x34], error = None\<rparr> \<and>
       r2 = Inr (Some example_address) \<and> performed2)"
  by (simp add: lookup_ip_def no_literal_def evict_stale_def default_options_def Let_def)

text \<open>What the loop does: an entry stays exactly when its age in milliseconds is at most
  \<open>dns_ttl\<close>.\<close>

lemma evict_stale_keeps:
  "evict_stale now ttl_option cache h = Some entry \<longleftrightarrow>
     cache h = Some entry \<and> now - time entry \<le> ttl_option"
  by (auto simp: evict_stale_def split: option.splits if_splits)

subsection \<open>The handshake and messages that are not INFO\<close>

lemma delete_absent: "map_of al k = None \<Longrightarrow> AList.delete k al = al"
  by (induction al) (auto split: if_splits)

lemma close_stream_no_reason:
  "close_stream this sid None quiet = (None, this\<lparr>streams := AList.delete sid (streams this)\<rparr>)"
proof (cases "map_of (streams this) sid")
  case None
  then show ?thesis by (simp add: close_stream_def delete_absent)
next
  case (Some stream)
  then show ?thesis
    by (cases "closed stream") (simp_all add: close_stream_def ServerStream_close_def Let_def)
qed

lemma cleanup_loop_deletes:
  "cleanup_loop sids this =
     (None, this\<lparr>streams := filter (\<lambda>(k, s). k \<notin> set sids) (streams this)\<rparr>)"
proof (induction sids arbitrary: this)
  case Nil
  then show ?case by simp
next
  case (Cons sid sids)
  have f: "filter (\<lambda>(k, s). k \<notin> set sids) (AList.delete sid al) =
           filter (\<lambda>(k, s). k \<notin> set (sid # sids)) al" for al :: "(int \<times> ServerStream) list"
    by (induction al) auto
  show ?case
    by (simp add: close_stream_no_reason Cons.IH f)
qed

lemma filter_all_keys: "filter (\<lambda>(k, s). k \<notin> fst ` set al) al = []"
  by (induction al) (auto simp: filter_empty_conv)

lemma cleanup_result:
  "cleanup this =
     (None, this\<lparr>streams := [], logged := logged this @ [(INFO, ''wisp connection closed'')],
                 ws := ws_close (ws this)\<rparr>)"
  by (simp add: cleanup_def cleanup_loop_deletes filter_all_keys logging_def Let_def)

lemma sent_ws_close: "sent (ws_close ch) = sent ch"
  by (simp add: ws_close_def Let_def)

lemma ch_closed_ws_close: "ch_closed (ws_close ch)"
  by (simp add: ws_close_def Let_def)

lemma readyState_ws_close: "readyState (ws_close ch) = Closing \<or> readyState (ws_close ch) = Closed"
  by (simp add: ws_close_def Let_def)

text \<open>
  Claim C4, as amended. In the version-2 handshake, when the message received from the
  client parses to a packet whose type is not INFO, \<open>setup_wisp_v2\<close> logs a warning, cleans
  the connection up (no stream is left in the table, the carrier is closed) and raises
  HandshakeError, which \<open>setup\<close> passes on. It sends no CLOSE packet: the carrier has
  received what the sending of the server's INFO packet left on it, and nothing more.
\<close>

theorem handshake_rejects_non_info:
  assumes "wisp_extensions this = Some exts" "serialize_extensions exts = Inr ext_buffer"
    and "parse_all bytes = Inr packet" "ptype packet \<noteq> 5"
  shows "\<exists>this1. setup_wisp_v2 this (Some bytes) = (Some HandshakeError, this1) \<and>
           streams this1 = [] \<and> ch_closed (ws this1) \<and>
           (readyState (ws this1) = Closing \<or> readyState (ws this1) = Closed) \<and>
           logged this1 = logged this @ [(WARN, ''handshake error: unexpected packet''),
                                         (INFO, ''wisp connection closed'')] \<and>
           sent (ws this1) =
             sent (snd (ws_send (ws this) (packet_of 0 (InfoPayload (wisp_version this) 0 ext_buffer)))) \<and>
           (wisp_version this = 2 \<and> connected (ws this) \<longrightarrow>
              ServerConnection_setup opens this (Some bytes) =
                (Some HandshakeError,
                 this1\<lparr>logged := logged this @
                          [(INFO, ''setting up new wisp connection''),
                           (WARN, ''handshake error: unexpected packet''),
                           (INFO, ''wisp connection closed'')]\<rparr>))"
proof -
  define this0 where
    "this0 = this\<lparr>ws := snd (ws_send (ws this) (packet_of 0 (InfoPayload (wisp_version this) 0 ext_buffer)))\<rparr>"
  define this1 where
    "this1 = this0\<lparr>streams := [],
                   logged := logged this @ [(WARN, ''handshake error: unexpected packet''),
                                            (INFO, ''wisp connection closed'')],
                   ws := ws_close (ws this0)\<rparr>"
  have v2: "setup_wisp_v2 c (Some bytes) =
              (Some HandshakeError,
               c\<lparr>ws := ws_close (snd (ws_send (ws c) (packet_of 0 (InfoPayload (wisp_version c) 0 ext_buffer)))),
                  streams := [],
                  logged := logged c @ [(WARN, ''handshake error: unexpected packet''),
                                        (INFO, ''wisp connection closed'')]\<rparr>)"
    if "wisp_extensions c = Some exts" for c
    using that assms(2,3,4)
    by (simp add: setup_wisp_v2_def cleanup_result logging_def Let_def)
  have r: "setup_wisp_v2 this (Some bytes) = (Some HandshakeError, this1)"
    using v2[OF assms(1)] by (simp add: this1_def this0_def)
  have s: "wisp_version this = 2 \<and> connected (ws this) \<longrightarrow>
             ServerConnection_setup opens this (Some bytes) =
               (Some HandshakeError,
                this1\<lparr>logged := logged this @
                         [(INFO, ''setting up new wisp connection''),
                          (WARN, ''handshake error: unexpected packet''),
                          (INFO, ''wisp connection closed'')]\<rparr>)"
    using v2[of "this\<lparr>logged := logged this @ [(INFO, ''setting up new wisp connection'')]\<rparr>"] assms(1)
    by (simp add: ServerConnection_setup_def ws_connect_def logging_def Let_def this1_def this0_def)
  show ?thesis
    using r s readyState_ws_close[of "ws this0"]
    by (intro exI[of _ this1]) (simp add: this1_def this0_def sent_ws_close ch_closed_ws_close)
qed

lemma example_conn_v2_fields:
  "wisp_extensions example_conn_v2 =
     Some [\<lparr>ext_cls = UDPExtension, ext_id = 1, ext_payload = Some EmptyPayload\<rparr>]"
  "ws example_conn_v2 = open_channel" "streams example_conn_v2 = []" "logged example_conn_v2 = []"
  "wisp_version example_conn_v2 = 2"
  by (simp_all add: example_conn_v2_def ServerConnection_new_def add_extensions_def default_options_def
        BaseExtension_new_def)

lemma header_bytes_Suc:
  "setUint32 (setUint8 (WispBuffer_alloc 5) 0 t) (Suc 0) v =
     word_of_int (t mod 256) # u32_bytes (v mod 4294967296)"
  using header_bytes[of t v] by simp

lemma serialize_udp_extension:
  "serialize_extensions [\<lparr>ext_cls = UDPExtension, ext_id = 1, ext_payload = Some EmptyPayload\<rparr>]
     = Inr [1, 0, 0, 0, 0]"
proof -
  have z: "WispBuffer_alloc 0 = []" by (simp add: WispBuffer_alloc_def)
  show ?thesis
    by (simp add: serialize_extensions_def Extension_serialize_def header_bytes_Suc u32_bytes_def
          concat_buf_def z Let_def)
qed

lemma info_packet_example:
  "packet_bytes (packet_of 0 (InfoPayload 2 0 [1, 0, 0, 0, 0])) = [5, 0, 0, 0, 0, 2, 0, 1, 0, 0, 0, 0]"
  by (simp add: packet_bytes_packet_of u32_bytes_def info_bytes del: payload_serialize.simps)

lemma ws_send_info_example:
  "ws_send open_channel (packet_of 0 (InfoPayload 2 0 [1, 0, 0, 0, 0])) =
     (None, open_channel\<lparr>sent := [[5, 0, 0, 0, 0, 2, 0, 1, 0, 0, 0, 0]]\<rparr>)"
  using ws_send_open[of open_channel 0 "InfoPayload 2 0 [1, 0, 0, 0, 0]"]
  by (simp add: open_channel_fields info_packet_example)

lemma parse_all_data_example:
  "parse_all [2, 1, 0, 0, 0] =
     Inr \<lparr>ptype = 2, stream_id = 1, payload_bytes = Some [], payload = Some (DataPayload [])\<rparr>"
  by (simp add: parse_all_def parse_def min_size_def bind_err_def getUint8_def getUint32_def
        slice_def clamp_index_def WispPacket_new_def packet_classes_def DataPayload_parse_def)

theorem handshake_rejects_non_info_witness:
  "\<exists>this1. setup_wisp_v2 example_conn_v2 (Some [2, 1, 0, 0, 0]) = (Some HandshakeError, this1) \<and>
     streams this1 = [] \<and> ch_closed (ws this1) \<and>
     sent (ws this1) = [[5, 0, 0, 0, 0, 2, 0, 1, 0, 0, 0, 0]] \<and>
     fst (ServerConnection_setup True example_conn_v2 (Some [2, 1, 0, 0, 0])) = Some HandshakeError"
proof -
  obtain this1 where
    r: "setup_wisp_v2 example_conn_v2 (Some [2, 1, 0, 0, 0]) = (Some HandshakeError, this1)"
      "streams this1 = []" "ch_closed (ws this1)"
      "sent (ws this1) =
         sent (snd (ws_send (ws example_conn_v2)
                      (packet_of 0 (InfoPayload (wisp_version example_conn_v2) 0 [1, 0, 0, 0, 0]))))"
      "wisp_version example_conn_v2 = 2 \<and> connected (ws example_conn_v2) \<longrightarrow>
         ServerConnection_setup True example_conn_v2 (Some [2, 1, 0, 0, 0]) =
           (Some HandshakeError,
            this1\<lparr>logged := logged example_conn_v2 @
                     [(INFO, ''setting up new wisp connection''),
                      (WARN, ''handshake error: unexpected packet''),
                      (INFO, ''wisp connection closed'')]\<rparr>)"
    using handshake_rejects_non_info[OF example_conn_v2_fields(1) serialize_udp_extension
        parse_all_data_example, of True]
    by auto
  show ?thesis
    using r by (intro exI[of _ this1])
      (simp add: example_conn_v2_fields ws_send_info_example open_channel_fields)
qed

text \<open>
  Claim C4 as stated fails twice. A message of three bytes does not parse: \<open>setup_wisp_v2\<close>
  raises the TypeError of \<open>parse_all\<close>, not HandshakeError, logs nothing and leaves the
  carrier open. A DATA packet is answered with HandshakeError and a cleanup, but no packet
  follows the server's INFO on the carrier: no CLOSE with InvalidInfo is sent.
\<close>

theorem handshake_malformed_and_invalid_info_counterexample:
  "setup_wisp_v2 example_conn_v2 (Some [1, 2, 3]) =
     (Some (TypeError ''packet too small''),
      example_conn_v2\<lparr>ws := open_channel\<lparr>sent := [[5, 0, 0, 0, 0, 2, 0, 1, 0, 0, 0, 0]]\<rparr>\<rparr>) \<and>
   (\<exists>this1. setup_wisp_v2 example_conn_v2 (Some [2, 1, 0, 0, 0]) = (Some HandshakeError, this1) \<and>
      sent (ws this1) = [[5, 0, 0, 0, 0, 2, 0, 1, 0, 0, 0, 0]])"
proof
  have small: "parse_all [1, 2, 3] = Inl (TypeError ''packet too small'')"
    by (simp add: parse_all_def min_size_def)
  show "setup_wisp_v2 example_conn_v2 (Some [1, 2, 3]) =
          (Some (TypeError ''packet too small''),
           example_conn_v2\<lparr>ws := open_channel\<lparr>sent := [[5, 0, 0, 0, 0, 2, 0, 1, 0, 0, 0, 0]]\<rparr>\<rparr>)"
    by (simp add: setup_wisp_v2_def example_conn_v2_fields serialize_udp_extension
          ws_send_info_example small)
next
  show "\<exists>this1. setup_wisp_v2 example_conn_v2 (Some [2, 1, 0, 0, 0]) = (Some HandshakeError, this1) \<and>
          sent (ws this1) = [[5, 0, 0, 0, 0, 2, 0, 1, 0, 0, 0, 0]]"
    by (simp add: setup_wisp_v2_def example_conn_v2_fields serialize_udp_extension
          ws_send_info_example parse_all_data_example cleanup_result sent_ws_close logging_def)
qed


subsection \<open>The per-stream buffer and the credit in CONTINUE\<close>

lemma pt_invar_new: "pt_invar PassThrough_new"
  by (simp add: pt_invar_def PassThrough_new_def buffer_size_def)

lemma pt_invar_write: "pt_invar p \<Longrightarrow> \<not> ended p \<Longrightarrow> pt_invar (pt_write chunk p)"
  by (auto simp: pt_invar_def pt_write_def pt_transform_def Let_def)

lemma pt_clearBuffer_full:
  assumes "length (rbuf p) = buffer_size" "\<not> held p" "\<not> ended p"
  shows "pt_clearBuffer queued p =
           (case queued of
              [] \<Rightarrow> p\<lparr>wbuf := []\<rparr>
            | chunk # rest \<Rightarrow> p\<lparr>rbuf := rbuf p @ [chunk], held := True, wbuf := rest\<rparr>)"
proof (cases queued)
  case Nil
  then show ?thesis by simp
next
  case (Cons chunk rest)
  have h: "held (pt_transform chunk p)"
    using assms(1,3) by (simp add: pt_transform_def Let_def)
  have "pt_clearBuffer rest (pt_transform chunk p) = (pt_transform chunk p)\<lparr>wbuf := rest\<rparr>"
    using h by (cases rest) simp_all
  then show ?thesis
    using assms Cons by (simp add: pt_transform_def Let_def)
qed

lemma pt_invar_read:
  assumes "pt_invar p" "\<not> ended p"
  shows "pt_invar (snd (pt_read p))"
proof (cases "rbuf p")
  case Nil
  then show ?thesis using assms by (simp add: pt_read_def)
next
  case (Cons c cs)
  show ?thesis
  proof (cases "held p")
    case True
    then have full: "length (rbuf (p\<lparr>held := False\<rparr>)) = buffer_size" "\<not> held (p\<lparr>held := False\<rparr>)"
        "\<not> ended (p\<lparr>held := False\<rparr>)"
      using assms by (simp_all add: pt_invar_def)
    have pos: "length (rbuf p) - 1 < buffer_size"
      using assms Cons by (simp add: pt_invar_def)
    show ?thesis
      using assms Cons True pos
      by (cases "wbuf p")
         (auto simp: pt_read_def pt_clearBuffer_full[OF full] pt_invar_def Let_def)
  next
    case False
    then show ?thesis
      using assms Cons by (auto simp: pt_read_def pt_invar_def Let_def)
  qed
qed

lemma ended_pt_transform: "ended (pt_transform chunk p) = ended p"
  by (simp add: pt_transform_def Let_def)

lemma ended_pt_clearBuffer: "ended (pt_clearBuffer queued p) = ended p"
  by (induction queued arbitrary: p) (simp_all add: ended_pt_transform)

lemma ended_pt_read: "ended (snd (pt_read p)) = ended p"
  by (cases "rbuf p") (simp_all add: pt_read_def ended_pt_clearBuffer Let_def)

lemma ended_pt_write: "ended (pt_write chunk p) = ended p"
  by (auto simp: pt_write_def pt_transform_def Let_def)

lemma length_pt_contents_write:
  "\<not> ended p \<Longrightarrow> length (pt_contents (pt_write chunk p)) = length (pt_contents p) + 1"
  by (auto simp: pt_contents_def pt_write_def pt_transform_def Let_def)

lemma ws_send_sent:
  "sent (snd (ws_send ch packet)) = sent ch \<or>
   sent (snd (ws_send ch packet)) = sent ch @ [packet_bytes packet]"
  by (auto simp: ws_send_def packet_bytes_def Let_def split: sum.splits option.splits)

lemma ServerStream_close_no_reason:
  "ServerStream_close conn this None =
     (None, conn,
      if closed this then this
      else this\<lparr>closed := True, clientToTarget := pt_end (clientToTarget this),
                 socket := Socket_close (socket this)\<rparr>)"
  by (simp add: ServerStream_close_def Let_def)

lemma stream_invar_close:
  assumes "stream_invar this"
  shows "stream_invar (snd (snd (ServerStream_close conn this rsn)))"
  using assms
  by (cases rsn) (auto simp: ServerStream_close_def stream_invar_def pt_end_def Let_def split: prod.splits)

text \<open>What a turn of the task does to the carrier, to the buffer and to the \<open>closed\<close>
  flag: only a turn that has read a chunk from the buffer sends a CONTINUE.\<close>

lemma ws_to_tcp_step_cases:
  assumes "ws_to_tcp_step conn this = (conn1, this1)"
  shows "(sent (ws conn1) = sent (ws conn) \<or>
          sent (ws conn1) = sent (ws conn) @
            [packet_bytes (packet_of (ss_stream_id this1)
               (ContinuePayload (int buffer_size - int (readableLength (clientToTarget this1)))))] \<and>
          clientToTarget this1 = snd (pt_read (clientToTarget this)) \<and> closed this1 = closed this) \<and>
         ((clientToTarget this1 = clientToTarget this \<and> closed this1 = closed this) \<or>
          (clientToTarget this1 = snd (pt_read (clientToTarget this)) \<and> closed this1 = closed this) \<or>
          (\<not> closed this \<and> closed this1 \<and>
           (clientToTarget this1 = pt_end (clientToTarget this) \<or>
            clientToTarget this1 = pt_end (snd (pt_read (clientToTarget this))))))"
proof (cases "ws_to_tcp_running this")
  case False
  then show ?thesis using assms by (simp add: ws_to_tcp_step_def)
next
  case True
  obtain r buf where rd: "pt_read (clientToTarget this) = (r, buf)" by force
  show ?thesis
  proof (cases r)
    case None
    then show ?thesis
      using assms True rd
      by (auto simp: ws_to_tcp_step_def ServerStream_close_no_reason Let_def split: if_splits)
  next
    case (Some d)
    obtain e sock where sd: "Socket_send (socket (this\<lparr>clientToTarget := buf\<rparr>)) d = (e, sock)"
      by force
    show ?thesis
    proof (cases e)
      case (Some err)
      then show ?thesis
        using assms True rd \<open>r = Some d\<close> sd
        by (auto simp: ws_to_tcp_step_def ServerStream_close_no_reason logging_def Let_def
              split: if_splits)
    next
      case None
      let ?this2 = "this\<lparr>clientToTarget := buf, socket := sock, packets_sent := Suc (packets_sent this)\<rparr>"
      let ?packet = "packet_of (ss_stream_id this)
                       (ContinuePayload (int buffer_size - int (readableLength buf)))"
      have r: "(conn1, this1) =
                 (if Suc (packets_sent this) mod (buffer_size div 2) \<noteq> 0 then (conn, ?this2)
                  else (conn\<lparr>ws := snd (ws_send (ws conn) ?packet)\<rparr>, ?this2))"
        using assms True rd \<open>r = Some d\<close> sd None
        by (auto simp: ws_to_tcp_step_def Let_def split: if_splits)
      show ?thesis
        using r rd ws_send_sent[of "ws conn" ?packet]
        by (auto split: if_splits)
    qed
  qed
qed

lemma stream_invar_step:
  assumes "stream_invar s"
  shows "stream_invar (snd (stream_step e (conn, s)))"
proof (cases e)
  case (SetupEnds outcome)
  then show ?thesis
    using assms
    by (auto simp: ServerStream_setup_def stream_invar_def Let_def split: prod.splits option.splits)
next
  case (PutData d)
  then show ?thesis
    using assms by (auto simp: put_data_def stream_invar_def pt_invar_write ended_pt_write)
next
  case PumpTurn
  obtain conn1 s1 where st: "ws_to_tcp_step conn s = (conn1, s1)" by force
  have "stream_invar s1"
    using ws_to_tcp_step_cases[OF st] assms
    by (auto simp: stream_invar_def ended_pt_read pt_invar_read pt_end_def)
  then show ?thesis
    using PumpTurn st by simp
next
  case (CloseStream rsn)
  then show ?thesis
    using stream_invar_close[OF assms, of conn rsn] by simp
qed

lemma stream_invar_run:
  assumes "stream_invar s"
  shows "stream_invar (snd (stream_run evs (conn, s)))"
  using assms
proof (induction evs arbitrary: conn s)
  case Nil
  then show ?case by simp
next
  case (Cons e evs)
  obtain conn1 s1 where st: "stream_step e (conn, s) = (conn1, s1)" by force
  have "stream_invar s1"
    using stream_invar_step[OF Cons.prems, of e conn] st by simp
  then show ?case
    using Cons.IH[of s1 conn1] st by simp
qed

text \<open>
  Claim C2, as amended. Take any history of a stream from its creation that leaves the
  stream not closed, and a turn of the \<open>ws_to_tcp\<close> task after it. The readable side of
  the stream's buffer holds at most \<open>B = 128\<close> entries. The turn sends nothing, or one
  CONTINUE packet whose \<open>buffer_remaining\<close> is \<open>B\<close> minus the length of the readable side
  at that moment, a number from 0 to \<open>B\<close>. The buffer as a whole is not bounded:
  \<open>put_data\<close> adds its chunk to what the buffer holds, whatever it holds.
\<close>

theorem continue_reports_readable_room:
  assumes "stream_run evs (conn0, ServerStream_new sid sock) = (conn, s)" "\<not> closed s"
    and "ws_to_tcp_step conn s = (conn1, s1)"
  shows "readableLength (clientToTarget s) \<le> buffer_size \<and>
         (sent (ws conn1) = sent (ws conn) \<or>
          sent (ws conn1) = sent (ws conn) @
            [packet_bytes (packet_of (ss_stream_id s1)
               (ContinuePayload (int buffer_size - int (readableLength (clientToTarget s1)))))] \<and>
          0 \<le> int buffer_size - int (readableLength (clientToTarget s1)) \<and>
          int buffer_size - int (readableLength (clientToTarget s1)) \<le> int buffer_size) \<and>
         length (pt_contents (clientToTarget (put_data s d))) =
           length (pt_contents (clientToTarget s)) + 1"
proof -
  have i0: "stream_invar (ServerStream_new sid sock)"
    by (simp add: ServerStream_new_def stream_invar_def pt_invar_new) (simp add: PassThrough_new_def)
  have i: "stream_invar s"
    using stream_invar_run[OF i0, of evs conn0] assms(1) by simp
  then have ne: "\<not> ended (clientToTarget s)" and p: "pt_invar (clientToTarget s)"
    using assms(2) by (simp_all add: stream_invar_def)
  have p1: "pt_invar (snd (pt_read (clientToTarget s)))"
    by (rule pt_invar_read[OF p ne])
  show ?thesis
    using p p1 ne ws_to_tcp_step_cases[OF assms(3)]
    by (auto simp: pt_invar_def readableLength_def put_data_def length_pt_contents_write)
qed

lemma run_put_data:
  assumes "\<not> ended (clientToTarget s)"
  shows "\<exists>s1. stream_run (replicate n (PutData d)) (conn, s) = (conn, s1) \<and>
           \<not> ended (clientToTarget s1) \<and>
           length (pt_contents (clientToTarget s1)) = length (pt_contents (clientToTarget s)) + n"
  using assms
proof (induction n arbitrary: s)
  case 0
  then show ?case by simp
next
  case (Suc n)
  have e: "\<not> ended (clientToTarget (put_data s d))"
    using Suc.prems by (simp add: put_data_def ended_pt_write)
  show ?case
    using Suc.IH[OF e] Suc.prems
    by (auto simp: put_data_def length_pt_contents_write)
qed

text \<open>
  Claim C2 as stated fails: after 129 DATA packets that no turn of the task has
  consumed, the buffer of the stream holds 129 entries, more than \<open>B = 128\<close>.
\<close>

theorem buffer_exceeds_capacity_counterexample:
  "length (pt_contents (clientToTarget
      (snd (stream_run (replicate 129 (PutData [0])) (example_conn1, example_stream))))) = 129 \<and>
   buffer_size = 128"
proof -
  have e: "\<not> ended (clientToTarget example_stream)"
    by (simp add: example_stream_fields PassThrough_new_def)
  have z: "length (pt_contents (clientToTarget example_stream)) = 0"
    by (simp add: example_stream_fields PassThrough_new_def pt_contents_def)
  show ?thesis
    using run_put_data[OF e, of 129 "[0]" example_conn1] z
    by (auto simp: buffer_size_def)
qed

subsection \<open>A CONTINUE every 64 chunks\<close>



lemma ws_send_keeps_state:
  "readyState (snd (ws_send ch packet)) = readyState ch"
  "bufferedAmount (snd (ws_send ch packet)) = bufferedAmount ch"
  by (auto simp: ws_send_def Let_def split: sum.splits option.splits)





lemma stream_run_append: "stream_run (es @ fs) st = stream_run fs (stream_run es st)"
  by (induction es arbitrary: st) simp_all



text \<open>Sixty-three chunks go through a stream that is set up, one at a time.\<close>

lemma one_round:
  assumes "ws_to_tcp_running s" "has_socket (socket s)" "clientToTarget s = PassThrough_new"
    and "Suc (packets_sent s) mod (buffer_size div 2) \<noteq> 0"
  shows "stream_run [PutData d, PumpTurn] (conn, s) =
           (conn, s\<lparr>socket := (socket s)\<lparr>written := written (socket s) @ [d]\<rparr>,
                    packets_sent := Suc (packets_sent s)\<rparr>)"
  using assms
  by (simp add: put_data_def pt_write_def pt_transform_def PassThrough_new_def buffer_size_def
        ws_to_tcp_step_def pt_read_def Socket_send_def Let_def)

lemma rounds:
  assumes "ws_to_tcp_running s" "has_socket (socket s)" "clientToTarget s = PassThrough_new"
    and "packets_sent s mod (buffer_size div 2) + k < buffer_size div 2"
  shows "stream_run (concat (replicate k [PutData d, PumpTurn])) (conn, s) =
           (conn, s\<lparr>socket := (socket s)\<lparr>written := written (socket s) @ replicate k d\<rparr>,
                    packets_sent := packets_sent s + k\<rparr>)"
  using assms
proof (induction k arbitrary: s)
  case 0
  then show ?case by simp
next
  case (Suc k)
  let ?s1 = "s\<lparr>socket := (socket s)\<lparr>written := written (socket s) @ [d]\<rparr>,
               packets_sent := Suc (packets_sent s)\<rparr>"
  have ms: "Suc (packets_sent s) mod (buffer_size div 2) = Suc (packets_sent s mod (buffer_size div 2))"
    using Suc.prems(4) by (simp add: mod_Suc)
  have m: "Suc (packets_sent s) mod (buffer_size div 2) \<noteq> 0"
    using ms by simp
  have r1: "stream_run [PutData d, PumpTurn] (conn, s) = (conn, ?s1)"
    by (rule one_round[OF Suc.prems(1,2,3) m])
  have ih: "stream_run (concat (replicate k [PutData d, PumpTurn])) (conn, ?s1) =
              (conn, ?s1\<lparr>socket := (socket ?s1)\<lparr>written := written (socket ?s1) @ replicate k d\<rparr>,
                         packets_sent := packets_sent ?s1 + k\<rparr>)"
    using Suc.prems ms by (intro Suc.IH) simp_all
  have "stream_run (concat (replicate (Suc k) [PutData d, PumpTurn])) (conn, s) =
          stream_run (concat (replicate k [PutData d, PumpTurn]))
            (stream_run [PutData d, PumpTurn] (conn, s))"
    using stream_run_append[of "[PutData d, PumpTurn]" "concat (replicate k [PutData d, PumpTurn])" "(conn, s)"]
    by simp
  then show ?case
    unfolding r1 ih by (simp add: replicate_app_Cons_same)
qed

lemma turn_sends_continue:
  assumes "ws_to_tcp_running s" "has_socket (socket s)" "clientToTarget s = PassThrough_new"
    and "Suc (packets_sent s) mod (buffer_size div 2) = 0"
    and "readyState (ws conn) = Open" "bufferedAmount (ws conn) \<noteq> None"
  shows "ws_to_tcp_step conn (put_data s d) =
           (conn\<lparr>ws := (ws conn)\<lparr>sent := sent (ws conn) @
                    [packet_bytes (packet_of (ss_stream_id s) (ContinuePayload 128))]\<rparr>\<rparr>,
            s\<lparr>socket := (socket s)\<lparr>written := written (socket s) @ [d]\<rparr>,
               packets_sent := Suc (packets_sent s)\<rparr>)"
proof -
  have w: "snd (ws_send (ws conn) (packet_of (ss_stream_id s) (ContinuePayload 128))) =
             (ws conn)\<lparr>sent := sent (ws conn) @
                [packet_bytes (packet_of (ss_stream_id s) (ContinuePayload 128))]\<rparr>"
    using ws_send_open[OF assms(5,6), of "ss_stream_id s" "ContinuePayload 128"] by simp
  show ?thesis
    using assms(1-4)
    by (simp add: put_data_def pt_write_def pt_transform_def PassThrough_new_def
          ws_to_tcp_step_def pt_read_def Socket_send_def Let_def readableLength_def buffer_size_def w)
qed

lemma continue_packet_example:
  "packet_bytes (packet_of 1 (ContinuePayload 128)) = [3, 1, 0, 0, 0, 128, 0, 0, 0]"
  by (simp add: packet_bytes_packet_of u32_bytes_def continue_bytes del: payload_serialize.simps)

text \<open>The stream of the examples after 63 chunks and a 64th DATA packet, and after the
  turn that sends the 64th chunk.\<close>

lemma example_run_63:
  "stream_run example_history example_start =
   (example_conn1,
    put_data (example_stream\<lparr>socket := (socket example_stream)\<lparr>written := replicate 63 [0]\<rparr>,
                             packets_sent := 63\<rparr>) [0])"
proof -
  have w0: "written (socket example_stream) = []"
    by (simp add: example_stream_def ServerStream_setup_def ServerStream_new_def Socket_connect_def
          Socket_new_def)
  have r: "stream_run (concat (replicate 63 [PutData [0], PumpTurn])) (example_conn1, example_stream) =
             (example_conn1,
              example_stream\<lparr>socket := (socket example_stream)
                                 \<lparr>written := written (socket example_stream) @ replicate 63 [0]\<rparr>,
                             packets_sent := packets_sent example_stream + 63\<rparr>)"
    by (rule rounds) (simp_all add: example_stream_fields buffer_size_def)
  have s0: "stream_step (SetupEnds Connects)
              (example_conn1, ServerStream_new 1 (Socket_new TCPSocket example_host 80)) =
            (example_conn1, example_stream)"
    by (simp add: example_stream_def)
  have "stream_run example_history example_start =
        stream_step (PutData [0])
          (stream_run (concat (replicate 63 [PutData [0], PumpTurn])) (example_conn1, example_stream))"
    by (simp only: example_history_def example_start_def stream_run.simps stream_run_append s0)
  then show ?thesis
    by (simp add: r w0 example_stream_fields)
qed

lemma example_turn_64:
  "ws_to_tcp_step example_conn1
     (put_data (example_stream\<lparr>socket := (socket example_stream)\<lparr>written := replicate 63 [0]\<rparr>,
                               packets_sent := 63\<rparr>) [0]) =
   (example_conn1\<lparr>ws := open_channel\<lparr>sent := [[3, 1, 0, 0, 0, 128, 0, 0, 0]]\<rparr>\<rparr>,
    example_stream\<lparr>socket := (socket example_stream)\<lparr>written := replicate 63 [0] @ [[0]]\<rparr>,
                   packets_sent := 64\<rparr>)"
  using turn_sends_continue[of "example_stream\<lparr>socket := (socket example_stream)\<lparr>written := replicate 63 [0]\<rparr>,
                                               packets_sent := 63\<rparr>" example_conn1 "[0]"]
  by (simp add: example_stream_fields example_conn1_fields open_channel_fields buffer_size_def
        continue_packet_example)




theorem continue_reports_readable_room_witness:
  "(let st = stream_run example_history example_start;
        st1 = ws_to_tcp_step (fst st) (snd st)
    in readableLength (clientToTarget (snd st)) \<le> buffer_size \<and>
       sent (ws (fst st1)) = [[3, 1, 0, 0, 0, 128, 0, 0, 0]] \<and>
       int buffer_size - int (readableLength (clientToTarget (snd st1))) = 128 \<and>
       length (pt_contents (clientToTarget (put_data (snd st) [1]))) =
         length (pt_contents (clientToTarget (snd st))) + 1)"
proof -
  let ?s = "put_data (example_stream\<lparr>socket := (socket example_stream)\<lparr>written := replicate 63 [0]\<rparr>,
                                     packets_sent := 63\<rparr>) [0]"
  have open_stream: "\<not> closed ?s"
    by (simp add: put_data_def example_stream_fields)
  note th = continue_reports_readable_room[OF example_run_63[unfolded example_start_def]
      open_stream example_turn_64, of "[1]"]
  have bound: "readableLength (clientToTarget ?s) \<le> buffer_size"
    using th by blast
  have grows: "length (pt_contents (clientToTarget (put_data ?s [1]))) =
               length (pt_contents (clientToTarget ?s)) + 1"
    using th by blast
  show ?thesis
    unfolding Let_def example_run_63 fst_conv snd_conv example_turn_64
    using bound grows
    by (simp add: example_stream_fields readableLength_def PassThrough_new_def buffer_size_def)
qed


end
